theory Spec2Isabelle
  imports Complex_Main "HOL-Library.Product_Lexorder"
begin

section \<open>Data model of g2b_lead_miner.py\<close>

text \<open>
  A Python \<open>str\<close> is a sequence of Unicode code points; it is modelled as a list of
  code-point numbers, so that \<open>length\<close> and indexing count what Python counts.
  Python floats are idealised as real numbers (no rounding error, no NaN or infinity).
\<close>

type_synonym pystr = "nat list"

record RawNotice =
  bid_ntce_no :: pystr
  bid_ntce_ord :: pystr
  notice_title :: pystr
  work_type :: pystr
  agency_name :: pystr
  notice_date :: pystr
  deadline_dt :: pystr
  budget_amt :: "real option"
  source_url :: pystr

text \<open>The positional constructor \<open>RawNotice(...)\<close> of the dataclass.\<close>

definition mk_RawNotice ::
  "pystr \<Rightarrow> pystr \<Rightarrow> pystr \<Rightarrow> pystr \<Rightarrow> pystr \<Rightarrow> pystr \<Rightarrow> pystr \<Rightarrow> real option \<Rightarrow> pystr
     \<Rightarrow> RawNotice" where
  "mk_RawNotice no ord title wt agency ndate deadline budget url =
     \<lparr>bid_ntce_no = no, bid_ntce_ord = ord, notice_title = title, work_type = wt,
      agency_name = agency, notice_date = ndate, deadline_dt = deadline,
      budget_amt = budget, source_url = url\<rparr>"

subsection \<open>Python dictionaries\<close>

text \<open>
  A \<open>dict\<close> keeps its keys in insertion order: assigning to a key that is present
  replaces the value in place, assigning to a new key appends an entry. It is modelled
  as an association list with exactly that update.
\<close>

type_synonym ('k, 'v) pydict = "('k \<times> 'v) list"

fun dict_set :: "('k, 'v) pydict \<Rightarrow> 'k \<Rightarrow> 'v \<Rightarrow> ('k, 'v) pydict" where
  "dict_set [] k v = [(k, v)]"
| "dict_set ((k', v') # d) k v =
     (if k' = k then (k', v) # d else (k', v') # dict_set d k v)"

fun dict_get :: "('k, 'v) pydict \<Rightarrow> 'k \<Rightarrow> 'v \<Rightarrow> 'v" where
  "dict_get [] k dflt = dflt"
| "dict_get ((k', v') # d) k dflt = (if k' = k then v' else dict_get d k dflt)"

definition dict_values :: "('k, 'v) pydict \<Rightarrow> 'v list" where
  "dict_values d = map snd d"

definition dict_keys :: "('k, 'v) pydict \<Rightarrow> 'k list" where
  "dict_keys d = map fst d"

section \<open>Dates and times\<close>

text \<open>
  A naive \<open>datetime\<close> with the attributes the program reads. Python compares two of
  them field by field from the year down, and subtracts them through the proleptic Gregorian
  ordinal of the date (\<open>toordinal\<close>, day 1 is 0001-01-01); the \<open>days\<close> attribute of
  the difference is the floor of the difference in whole days.
\<close>

record datetime =
  year :: int
  month :: int
  day :: int
  hour :: int
  minute :: int
  second :: int
  microsecond :: int

definition is_leap :: "int \<Rightarrow> bool" where
  "is_leap y = (y mod 4 = 0 \<and> (y mod 100 \<noteq> 0 \<or> y mod 400 = 0))"

definition days_in_month :: "int \<Rightarrow> int \<Rightarrow> int" where
  "days_in_month y m =
     (if m = 2 then (if is_leap y then 29 else 28)
      else if m = 4 \<or> m = 6 \<or> m = 9 \<or> m = 11 then 30 else 31)"

definition days_before_year :: "int \<Rightarrow> int" where
  "days_before_year y = (let y1 = y - 1 in y1 * 365 + y1 div 4 - y1 div 100 + y1 div 400)"

definition days_before_month :: "int \<Rightarrow> int \<Rightarrow> int" where
  "days_before_month y m = sum_list (map (days_in_month y) [1..m - 1])"

definition toordinal :: "datetime \<Rightarrow> int" where
  "toordinal d = days_before_year (year d) + days_before_month (year d) (month d) + day d"

definition total_microseconds :: "datetime \<Rightarrow> int" where
  "total_microseconds d =
     (((toordinal d * 24 + hour d) * 60 + minute d) * 60 + second d) * 1000000 + microsecond d"

definition timedelta_days :: "datetime \<Rightarrow> datetime \<Rightarrow> int" where
  "timedelta_days a b = (total_microseconds a - total_microseconds b) div 86400000000"

text \<open>\<open>datetime(y, m, d, h, mi)\<close> with seconds and microseconds left at zero.\<close>

definition dt :: "int \<Rightarrow> int \<Rightarrow> int \<Rightarrow> int \<Rightarrow> int \<Rightarrow> datetime" where
  "dt y m d h mi = \<lparr>year = y, month = m, day = d, hour = h, minute = mi, second = 0, microsecond = 0\<rparr>"

section \<open>Urgency scorer\<close>

text \<open>
  \<^verbatim>\<open>
  def urgency_score(deadline_dt, budget_amt, repeat, agency_weight=0.6, fit_weight=0.8):
      if deadline_dt is None:
          deadline_score = 0.5
      else:
          days_left = max((deadline_dt - datetime.now()).days, 0)
          deadline_score = 1.0 / (1.0 + (days_left / 7.0))
      if budget_amt and budget_amt > 0:
          budget_score = min(1.0, math.log10(budget_amt + 1.0) / 9.0)
      else:
          budget_score = 0.5
      repeat_score = 1.0 if repeat else 0.0
      score = 100.0 * (0.35 * deadline_score + 0.25 * budget_score + 0.15 * agency_weight
                       + 0.15 * repeat_score + 0.10 * fit_weight)
      return int(round(max(0.0, min(100.0, score))))
  \<close>
  The clock reading \<open>datetime.now()\<close> is the first argument of the model. The built-in
  \<open>round\<close> rounds to the nearest integer and a tie to the even neighbour. The local
  variable \<open>score\<close> is \<open>raw_score\<close>.
\<close>

definition py_round :: "real \<Rightarrow> int" where
  "py_round x =
     (let f = \<lfloor>x\<rfloor>; r = x - of_int f in
      if r < 1/2 then f else if 1/2 < r then f + 1 else if even f then f else f + 1)"

definition deadline_score :: "datetime \<Rightarrow> datetime option \<Rightarrow> real" where
  "deadline_score now deadline =
     (case deadline of
        None \<Rightarrow> 0.5
      | Some d \<Rightarrow> (let days_left = max (timedelta_days d now) 0
                  in 1.0 / (1.0 + (of_int days_left / 7.0))))"

definition budget_score :: "real option \<Rightarrow> real" where
  "budget_score budget =
     (case budget of
        None \<Rightarrow> 0.5
      | Some b \<Rightarrow> if b \<noteq> 0 \<and> b > 0 then min 1.0 (log 10 (b + 1.0) / 9.0) else 0.5)"

definition raw_score :: "datetime \<Rightarrow> datetime option \<Rightarrow> real option \<Rightarrow> bool \<Rightarrow> real \<Rightarrow> real \<Rightarrow> real" where
  "raw_score now deadline budget repeat agency_weight fit_weight =
     100.0 * (0.35 * deadline_score now deadline
            + 0.25 * budget_score budget
            + 0.15 * agency_weight
            + 0.15 * (if repeat then 1.0 else 0.0)
            + 0.10 * fit_weight)"

definition urgency_score :: "datetime \<Rightarrow> datetime option \<Rightarrow> real option \<Rightarrow> bool \<Rightarrow> real \<Rightarrow> real \<Rightarrow> int" where
  "urgency_score now deadline budget repeat agency_weight fit_weight =
     py_round (max 0.0 (min 100.0 (raw_score now deadline budget repeat agency_weight fit_weight)))"

section \<open>Retrying fetcher\<close>

text \<open>
  \<^verbatim>\<open>
  def request_json(url, params):
      last_error = None
      for attempt in range(1, MAX_RETRIES + 1):
          try:
              ...
              with urllib.request.urlopen(request, timeout=TIMEOUT_SEC) as response:
                  payload = response.read().decode("utf-8")
                  return json.loads(payload)
          except urllib.error.HTTPError as exc:
              if exc.code in (401, 403):
                  raise RuntimeError(f"... ({exc.code}) ...") from exc
              if exc.code == 429 or exc.code >= 500:
                  last_error = exc
              else:
                  raise
          except Exception as exc:
              last_error = exc
          if attempt == MAX_RETRIES:
              break
          time.sleep(min(2**attempt, 8))
      raise RuntimeError(f"...: {last_error}")
  \<close>
  The network is the argument \<open>attempts\<close>: the outcome of the body of the \<open>try\<close>
  at each attempt, either the parsed document or the exception raised. The result is
  what the function returns or raises, together with the list of the delays it slept, in
  order. The two \<open>RuntimeError\<close>s are told apart by constructor: \<open>AuthError\<close> carries
  the status code its message shows, \<open>CallFailed\<close> the last error its message shows;
  \<open>Reraised\<close> is the bare \<open>raise\<close> of the other statuses.
\<close>

definition MAX_RETRIES :: nat where
  "MAX_RETRIES = 4"

datatype py_exception = HTTPError int | OtherError pystr

datatype 'a outcome = Returned 'a | Raised py_exception

datatype request_error =
    AuthError int
  | Reraised py_exception
  | CallFailed "py_exception option"

function request_loop ::
  "(nat \<Rightarrow> 'a outcome) \<Rightarrow> nat \<Rightarrow> py_exception option \<Rightarrow> nat list
     \<Rightarrow> (request_error + 'a) \<times> nat list" where
  "request_loop attempts attempt last_error slept =
     (if MAX_RETRIES < attempt then (Inl (CallFailed last_error), slept)
      else
        (case attempts attempt of
           Returned payload \<Rightarrow> (Inr payload, slept)
         | Raised exc \<Rightarrow>
             (case (case exc of
                      HTTPError code \<Rightarrow>
                        if code = 401 \<or> code = 403 then Inl (AuthError code)
                        else if code = 429 \<or> code \<ge> 500 then Inr (Some exc)
                        else Inl (Reraised exc)
                    | OtherError _ \<Rightarrow> Inr (Some exc)) of
                Inl err \<Rightarrow> (Inl err, slept)
              | Inr last_error' \<Rightarrow>
                  if attempt = MAX_RETRIES then (Inl (CallFailed last_error'), slept)
                  else request_loop attempts (attempt + 1) last_error'
                         (slept @ [min (2 ^ attempt) 8]))))"
  by pat_completeness auto
termination
  by (relation "measure (\<lambda>(attempts, attempt, last_error, slept). MAX_RETRIES + 1 - attempt)") auto

definition request_json :: "(nat \<Rightarrow> 'a outcome) \<Rightarrow> (request_error + 'a) \<times> nat list" where
  "request_json attempts = request_loop attempts 1 None []"

declare request_loop.simps [simp del]

section \<open>Window planner\<close>

text \<open>
  \<^verbatim>\<open>
  def iter_windows(start, end, mode):
      cursor = start
      while cursor <= end:
          if mode == "monthly":
              if cursor.month == 12:
                  nxt = datetime(cursor.year + 1, 1, 1)
              else:
                  nxt = datetime(cursor.year, cursor.month + 1, 1)
              window_end = min(end, nxt - timedelta(minutes=1))
          else:
              nxt = cursor + timedelta(days=1)
              window_end = min(end, nxt - timedelta(minutes=1))
          yield cursor, window_end
          cursor = nxt
  \<close>
  Two datetimes compare as the tuples of their fields. The constructor
  \<open>datetime(y, m, d)\<close> raises \<open>ValueError\<close> outside the years 1 to 9999, the months 1
  to 12 and the days of the month; adding a day and subtracting a minute raise
  \<open>OverflowError\<close> when the result leaves the years 1 to 9999, and otherwise carry into
  the next day, month and year, or borrow from the previous ones. \<open>min(a, b)\<close> is
  \<open>b\<close> when \<open>b < a\<close> and \<open>a\<close> otherwise. The generator is modelled by the list of
  the windows it yields and the exception that ends it, if one does.
\<close>

datatype py_error = OverflowError | ValueError

definition dt_tuple :: "datetime \<Rightarrow> int \<times> int \<times> int \<times> int \<times> int \<times> int \<times> int" where
  "dt_tuple d = (year d, month d, day d, hour d, minute d, second d, microsecond d)"

definition dt_le :: "datetime \<Rightarrow> datetime \<Rightarrow> bool" where
  "dt_le a b = (dt_tuple a \<le> dt_tuple b)"

definition dt_less :: "datetime \<Rightarrow> datetime \<Rightarrow> bool" where
  "dt_less a b = (dt_tuple a < dt_tuple b)"

definition py_min :: "datetime \<Rightarrow> datetime \<Rightarrow> datetime" where
  "py_min a b = (if dt_less b a then b else a)"

definition valid_datetime :: "datetime \<Rightarrow> bool" where
  "valid_datetime d =
     (1 \<le> year d \<and> year d \<le> 9999 \<and> 1 \<le> month d \<and> month d \<le> 12
      \<and> 1 \<le> day d \<and> day d \<le> days_in_month (year d) (month d)
      \<and> 0 \<le> hour d \<and> hour d < 24 \<and> 0 \<le> minute d \<and> minute d < 60
      \<and> 0 \<le> second d \<and> second d < 60 \<and> 0 \<le> microsecond d \<and> microsecond d < 1000000)"

definition mk_date :: "int \<Rightarrow> int \<Rightarrow> int \<Rightarrow> py_error + datetime" where
  "mk_date y m d =
     (if 1 \<le> y \<and> y \<le> 9999 \<and> 1 \<le> m \<and> m \<le> 12 \<and> 1 \<le> d \<and> d \<le> days_in_month y m
      then Inr (dt y m d 0 0) else Inl ValueError)"

definition plus_one_day :: "datetime \<Rightarrow> py_error + datetime" where
  "plus_one_day d =
     (if day d < days_in_month (year d) (month d) then Inr (d\<lparr>day := day d + 1\<rparr>)
      else if month d < 12 then Inr (d\<lparr>month := month d + 1, day := 1\<rparr>)
      else if year d < 9999 then Inr (d\<lparr>year := year d + 1, month := 1, day := 1\<rparr>)
      else Inl OverflowError)"

definition minus_one_minute :: "datetime \<Rightarrow> py_error + datetime" where
  "minus_one_minute d =
     (if 0 < minute d then Inr (d\<lparr>minute := minute d - 1\<rparr>)
      else if 0 < hour d then Inr (d\<lparr>hour := hour d - 1, minute := 59\<rparr>)
      else if 1 < day d then Inr (d\<lparr>day := day d - 1, hour := 23, minute := 59\<rparr>)
      else if 1 < month d then
        Inr (d\<lparr>month := month d - 1, day := days_in_month (year d) (month d - 1),
               hour := 23, minute := 59\<rparr>)
      else if 1 < year d then
        Inr (d\<lparr>year := year d - 1, month := 12, day := 31, hour := 23, minute := 59\<rparr>)
      else Inl OverflowError)"

definition MONTHLY :: pystr where
  "MONTHLY = [109, 111, 110, 116, 104, 108, 121]"

definition DAILY :: pystr where
  "DAILY = [100, 97, 105, 108, 121]"

definition next_cursor :: "pystr \<Rightarrow> datetime \<Rightarrow> py_error + datetime" where
  "next_cursor mode cursor =
     (if mode = MONTHLY then
        (if month cursor = 12 then mk_date (year cursor + 1) 1 1
         else mk_date (year cursor) (month cursor + 1) 1)
      else plus_one_day cursor)"

function iter_windows ::
  "datetime \<Rightarrow> datetime \<Rightarrow> pystr \<Rightarrow> (datetime \<times> datetime) list \<times> py_error option" where
  "iter_windows cursor end_dt mode =
     (if dt_le cursor end_dt then
        (case next_cursor mode cursor of
           Inl err \<Rightarrow> ([], Some err)
         | Inr nxt \<Rightarrow>
             (case minus_one_minute nxt of
                Inl err \<Rightarrow> ([], Some err)
              | Inr before_nxt \<Rightarrow>
                  (let window_end = py_min end_dt before_nxt;
                       rest = iter_windows nxt end_dt mode
                   in ((cursor, window_end) # fst rest, snd rest))))
      else ([], None))"
  by pat_completeness auto

termination
proof (relation "measures
    [\<lambda>(c, e, m). nat (year e + 1 - year c),
     \<lambda>(c, e, m). nat (12 - month c),
     \<lambda>(c, e, m). nat (days_in_month (year c) (month c) - day c)]")
  show "wf (measures
    [\<lambda>(c, e, m). nat (year e + 1 - year c),
     \<lambda>(c, e :: datetime, m :: pystr). nat (12 - month c),
     \<lambda>(c, e, m). nat (days_in_month (year c) (month c) - day c)])"
    by simp
next
  fix cursor end_dt :: datetime and mode :: pystr and nxt x2
  assume le: "dt_le cursor end_dt" and n: "next_cursor mode cursor = Inr nxt"
  have y: "year cursor \<le> year end_dt"
    using le by (auto simp: dt_le_def dt_tuple_def less_eq_prod_def)
  have "nat (year end_dt + 1 - year nxt) < nat (year end_dt + 1 - year cursor)
       \<or> (year nxt = year cursor \<and> nat (12 - month nxt) < nat (12 - month cursor))
       \<or> (year nxt = year cursor \<and> month nxt = month cursor
           \<and> nat (days_in_month (year nxt) (month nxt) - day nxt)
               < nat (days_in_month (year cursor) (month cursor) - day cursor))"
    using n y
    by (auto simp: next_cursor_def mk_date_def plus_one_day_def dt_def split: if_splits)
  then show "((nxt, end_dt, mode), cursor, end_dt, mode) \<in> measures
    [\<lambda>(c, e, m). nat (year e + 1 - year c),
     \<lambda>(c, e, m). nat (12 - month c),
     \<lambda>(c, e, m). nat (days_in_month (year c) (month c) - day c)]"
    by auto
qed

declare iter_windows.simps [simp del]

section \<open>Deduplicator\<close>

text \<open>
  \<^verbatim>\<open>
  def dedupe_notices(notices):
      deduped = {}
      for notice in notices:
          deduped[(notice.bid_ntce_no, notice.bid_ntce_ord)] = notice
      return list(deduped.values())
  \<close>
\<close>

definition notice_key :: "RawNotice \<Rightarrow> pystr \<times> pystr" where
  "notice_key n = (bid_ntce_no n, bid_ntce_ord n)"

definition dedupe_step ::
  "(pystr \<times> pystr, RawNotice) pydict \<Rightarrow> RawNotice \<Rightarrow> (pystr \<times> pystr, RawNotice) pydict" where
  "dedupe_step deduped notice = dict_set deduped (bid_ntce_no notice, bid_ntce_ord notice) notice"

definition dedupe_notices :: "RawNotice list \<Rightarrow> RawNotice list" where
  "dedupe_notices notices = dict_values (foldl dedupe_step [] notices)"

text \<open>The distinct elements of a list, each at the place of its first occurrence.\<close>

fun first_occurrences :: "'a list \<Rightarrow> 'a list" where
  "first_occurrences [] = []"
| "first_occurrences (x # xs) = x # first_occurrences (removeAll x xs)"

section \<open>The Python runtime the program calls\<close>

text \<open>
  The character tables of the Unicode database and the case mapping of strings are not
  part of the program; they are the fields of a parameter \<open>L\<close>: \<open>isspace\<close> is the
  whitespace test of \<open>str.strip\<close> and of the class \<open>\s\<close>, \<open>isdecimal\<close> the class
  \<open>\d\<close>, \<open>isword\<close> the class \<open>\w\<close> that decides \<open>\b\<close>, \<open>iscased\<close> and
  \<open>tolower\<close> the case folding of \<open>re.IGNORECASE\<close>, \<open>str_lower\<close> the method
  \<open>str.lower\<close>.
\<close>

record pylib =
  isspace :: "nat \<Rightarrow> bool"
  isdecimal :: "nat \<Rightarrow> bool"
  isword :: "nat \<Rightarrow> bool"
  iscased :: "nat \<Rightarrow> bool"
  tolower :: "nat \<Rightarrow> nat"
  str_lower :: "pystr \<Rightarrow> pystr"

text \<open>
  A sample of these tables, for evaluating the functions on concrete titles: ASCII and the
  Hangul syllables as Unicode has them, every other code point taken as caseless, not a
  digit and not a word character.
\<close>

definition basic_lib :: pylib where
  "basic_lib =
     \<lparr>isspace = (\<lambda>c. (9 \<le> c \<and> c \<le> 13) \<or> (28 \<le> c \<and> c \<le> 32) \<or> c = 133 \<or> c = 160),
      isdecimal = (\<lambda>c. 48 \<le> c \<and> c \<le> 57),
      isword = (\<lambda>c. (48 \<le> c \<and> c \<le> 57) \<or> (65 \<le> c \<and> c \<le> 90) \<or> c = 95
                    \<or> (97 \<le> c \<and> c \<le> 122) \<or> (44032 \<le> c \<and> c \<le> 55203)),
      iscased = (\<lambda>c. (65 \<le> c \<and> c \<le> 90) \<or> (97 \<le> c \<and> c \<le> 122)),
      tolower = (\<lambda>c. if 65 \<le> c \<and> c \<le> 90 then c + 32 else c),
      str_lower = map (\<lambda>c. if 65 \<le> c \<and> c \<le> 90 then c + 32 else c)\<rparr>"

definition py_strip :: "pylib \<Rightarrow> pystr \<Rightarrow> pystr" where
  "py_strip L s = rev (dropWhile (isspace L) (rev (dropWhile (isspace L) s)))"

subsection \<open>Regular expressions\<close>

text \<open>
  The patterns of the program are literal strings, and the literal \<open>OD\<close> between two
  word boundaries (\<open>\bOD\b\<close>); an alternation is a list of them. Under
  \<open>re.IGNORECASE\<close> a cased pattern character matches the characters with the same
  lower case, an uncased one only itself. A word boundary lies between a word character
  and a character that is none, the two ends of the text counting as none.
  \<open>re.search\<close> is true when the pattern matches at some position of the text.
\<close>

datatype pattern = Literal pystr | WholeWord pystr

definition char_match :: "pylib \<Rightarrow> nat \<Rightarrow> nat \<Rightarrow> bool" where
  "char_match L p c = (if iscased L p then tolower L c = tolower L p else c = p)"

fun match_here :: "pylib \<Rightarrow> pystr \<Rightarrow> pystr \<Rightarrow> bool" where
  "match_here L [] txt = True"
| "match_here L (p # ps) [] = False"
| "match_here L (p # ps) (c # cs) = (char_match L p c \<and> match_here L ps cs)"

definition word_char :: "pylib \<Rightarrow> nat option \<Rightarrow> bool" where
  "word_char L c = (case c of None \<Rightarrow> False | Some x \<Rightarrow> isword L x)"

definition boundary :: "pylib \<Rightarrow> nat option \<Rightarrow> nat option \<Rightarrow> bool" where
  "boundary L prev next_c = (word_char L prev \<noteq> word_char L next_c)"

definition first_char :: "pystr \<Rightarrow> nat option" where
  "first_char s = (case s of [] \<Rightarrow> None | c # _ \<Rightarrow> Some c)"

definition last_char :: "nat option \<Rightarrow> pystr \<Rightarrow> nat option" where
  "last_char prev s = (if s = [] then prev else Some (last s))"

definition pattern_here :: "pylib \<Rightarrow> pattern \<Rightarrow> nat option \<Rightarrow> pystr \<Rightarrow> bool" where
  "pattern_here L pat prev txt =
     (case pat of
        Literal p \<Rightarrow> match_here L p txt
      | WholeWord p \<Rightarrow>
          boundary L prev (first_char txt)
          \<and> match_here L p txt
          \<and> boundary L (last_char prev (take (length p) txt))
                (first_char (drop (length p) txt)))"

fun search_from :: "pylib \<Rightarrow> pattern \<Rightarrow> nat option \<Rightarrow> pystr \<Rightarrow> bool" where
  "search_from L pat prev [] = pattern_here L pat prev []"
| "search_from L pat prev (c # cs) =
     (pattern_here L pat prev (c # cs) \<or> search_from L pat (Some c) cs)"

definition re_search :: "pylib \<Rightarrow> pattern \<Rightarrow> pystr \<Rightarrow> bool" where
  "re_search L pat txt = search_from L pat None txt"

definition re_search_any :: "pylib \<Rightarrow> pattern list \<Rightarrow> pystr \<Rightarrow> bool" where
  "re_search_any L pats txt = list_ex (\<lambda>pat. re_search L pat txt) pats"

section \<open>Classifier\<close>

text \<open>
  \<^verbatim>\<open>
  def match_category(title):
      txt = (title or "").strip()
      if not txt:
          return UNASSIGNED, 0.0, []
      include_hits = [pat for pat in INCLUDE_PATTERNS if re.search(pat, txt, re.IGNORECASE)]
      exclude_hits = [pat for pat in EXCLUDE_PATTERNS if re.search(pat, txt, re.IGNORECASE)]
      if not include_hits:
          return NOT_APPLICABLE, 0.0, []
      if exclude_hits and len(include_hits) <= len(exclude_hits):
          return HOLD, 0.45, include_hits
      if re.search(OD_TERMS, txt, re.IGNORECASE):
          return OD_ORGANIZATION, 0.84, include_hits
      if re.search(EVALUATION_TERMS, txt, re.IGNORECASE):
          return EVALUATION_SYSTEM, 0.78, include_hits
      return HRD_TRAINING, 0.72, include_hits
  \<close>
  The Korean string literals of the source are written as their code points and named in
  English.
\<close>

definition INCLUDE_PATTERNS :: "pattern list" where
  "INCLUDE_PATTERNS =
     [Literal [72, 82, 68],
      Literal [44368, 50977],
      Literal [50672, 49688],
      Literal [54984, 47144],
      Literal [44053, 49324],
      Literal [50892, 53356, 49677],
      Literal [49464, 48120, 45208],
      Literal [53076, 52845],
      Literal [47532, 45908, 49901],
      Literal [51649, 47924, 50669, 47049],
      Literal [50669, 47049],
      Literal [51312, 51649, 51652, 45800],
      Literal [51312, 51649, 47928, 54868],
      WholeWord [79, 68],
      Literal [49457, 44284, 54217, 44032],
      Literal [54217, 44032, 51228, 46020],
      Literal [51064, 49324, 51228, 46020],
      Literal [52968, 49444, 54021]]"

definition EXCLUDE_PATTERNS :: "pattern list" where
  "EXCLUDE_PATTERNS =
     [Literal [49884, 49444],
      Literal [49548, 48169],
      Literal [51204, 44592],
      Literal [52397, 49548],
      Literal [44553, 49885],
      Literal [50504, 51204, 51216, 44160],
      Literal [51312, 44221],
      Literal [46020, 47196]]"

definition OD_TERMS :: "pattern list" where
  "OD_TERMS =
     [Literal [51312, 51649, 51652, 45800],
      Literal [51312, 51649, 47928, 54868],
      WholeWord [79, 68],
      Literal [48320, 54868, 44288, 47532]]"

definition EVALUATION_TERMS :: "pattern list" where
  "EVALUATION_TERMS =
     [Literal [54217, 44032],
      Literal [49457, 44284],
      Literal [50669, 47049, 47784, 45944],
      Literal [51649, 47924, 52404, 44228],
      Literal [51064, 49324, 51228, 46020]]"

definition UNASSIGNED :: pystr where
  "UNASSIGNED = [48120, 51648, 51221]"

definition NOT_APPLICABLE :: pystr where
  "NOT_APPLICABLE = [48708, 45824, 49345]"

definition HOLD :: pystr where
  "HOLD = [48372, 47448, 40, 45432, 51060, 51592, 32, 44032, 45733, 41]"

definition OD_ORGANIZATION :: pystr where
  "OD_ORGANIZATION = [79, 68, 47, 51312, 51649]"

definition EVALUATION_SYSTEM :: pystr where
  "EVALUATION_SYSTEM = [54217, 44032, 47, 51228, 46020]"

definition HRD_TRAINING :: pystr where
  "HRD_TRAINING = [72, 82, 68, 47, 44368, 50977]"

definition match_category :: "pylib \<Rightarrow> pystr option \<Rightarrow> pystr \<times> real \<times> pattern list" where
  "match_category L title =
     (let txt = py_strip L (case title of None \<Rightarrow> [] | Some t \<Rightarrow> t) in
      if txt = [] then (UNASSIGNED, 0.0, [])
      else
        let include_hits = filter (\<lambda>pat. re_search L pat txt) INCLUDE_PATTERNS;
            exclude_hits = filter (\<lambda>pat. re_search L pat txt) EXCLUDE_PATTERNS
        in
          if include_hits = [] then (NOT_APPLICABLE, 0.0, [])
          else if exclude_hits \<noteq> [] \<and> length include_hits \<le> length exclude_hits
            then (HOLD, 0.45, include_hits)
          else if re_search_any L OD_TERMS txt then (OD_ORGANIZATION, 0.84, include_hits)
          else if re_search_any L EVALUATION_TERMS txt
            then (EVALUATION_SYSTEM, 0.78, include_hits)
          else (HRD_TRAINING, 0.72, include_hits))"

section \<open>Recurrence detector\<close>

text \<open>
  \<^verbatim>\<open>
  def _normalize_title(title):
      normalized = re.sub(r"20\d{2}", "", title)
      normalized = re.sub(r"\d+CHA|\d+HOE", "", normalized)
      normalized = re.sub(r"\s+", " ", normalized)
      return normalized.strip().lower()

  def _find_repeated_titles(notices):
      counts = {}
      for n in notices:
          key = (n.agency_name, _normalize_title(n.notice_title))
          counts[key] = counts.get(key, 0) + 1
      return {key for key, count in counts.items() if count >= 2}
  \<close>
  (CHA and HOE stand for the two Hangul ordinal markers, code points 52264 and 54924.)
  \<open>re.sub\<close> replaces the matches it finds from left to right, without overlap.
  \<open>digits_then\<close> is the length of the match of \<open>\d+\<close> followed by the marker at
  the start of a text, the longest run of digits first; \<open>sub_ordinals\<close> skips the
  characters of a match it has found.
\<close>

fun sub_years :: "pylib \<Rightarrow> pystr \<Rightarrow> pystr" where
  "sub_years L (a # b # c # d # rest) =
     (if a = 50 \<and> b = 48 \<and> isdecimal L c \<and> isdecimal L d then sub_years L rest
      else a # sub_years L (b # c # d # rest))"
| "sub_years L s = s"

fun digits_then :: "pylib \<Rightarrow> nat \<Rightarrow> pystr \<Rightarrow> nat option" where
  "digits_then L marker [] = None"
| "digits_then L marker (c # cs) =
     (if isdecimal L c then
        (case digits_then L marker cs of
           Some n \<Rightarrow> Some (Suc n)
         | None \<Rightarrow> (case cs of [] \<Rightarrow> None | m # _ \<Rightarrow> if m = marker then Some 2 else None))
      else None)"

definition ordinal_here :: "pylib \<Rightarrow> pystr \<Rightarrow> nat option" where
  "ordinal_here L s =
     (case digits_then L 52264 s of Some n \<Rightarrow> Some n | None \<Rightarrow> digits_then L 54924 s)"

fun sub_ordinals :: "pylib \<Rightarrow> nat \<Rightarrow> pystr \<Rightarrow> pystr" where
  "sub_ordinals L skip [] = []"
| "sub_ordinals L skip (c # cs) =
     (if 0 < skip then sub_ordinals L (skip - 1) cs
      else
        (case ordinal_here L (c # cs) of
           Some n \<Rightarrow> sub_ordinals L (n - 1) cs
         | None \<Rightarrow> c # sub_ordinals L 0 cs))"

fun sub_spaces :: "pylib \<Rightarrow> bool \<Rightarrow> pystr \<Rightarrow> pystr" where
  "sub_spaces L in_run [] = []"
| "sub_spaces L in_run (c # cs) =
     (if isspace L c then (if in_run then sub_spaces L True cs else 32 # sub_spaces L True cs)
      else c # sub_spaces L False cs)"

definition normalize_title :: "pylib \<Rightarrow> pystr \<Rightarrow> pystr" where
  "normalize_title L title =
     (let normalized = sub_years L title;
          normalized = sub_ordinals L 0 normalized;
          normalized = sub_spaces L False normalized
      in str_lower L (py_strip L normalized))"

definition count_step ::
  "pylib \<Rightarrow> (pystr \<times> pystr, nat) pydict \<Rightarrow> RawNotice \<Rightarrow> (pystr \<times> pystr, nat) pydict" where
  "count_step L counts n =
     (let key = (agency_name n, normalize_title L (notice_title n))
      in dict_set counts key (dict_get counts key 0 + 1))"

definition find_repeated_titles :: "pylib \<Rightarrow> RawNotice list \<Rightarrow> (pystr \<times> pystr) set" where
  "find_repeated_titles L notices =
     (let counts = foldl (count_step L) [] notices
      in set (map fst (filter (\<lambda>(key, count). count \<ge> 2) counts)))"

section \<open>Lead ranker\<close>

text \<open>
  The fields of a \<open>LeadRecord\<close> that a \<open>RawNotice\<close> has too carry the prefix
  \<open>lead_\<close>, as does its urgency score.
\<close>

record LeadRecord =
  as_of_date :: pystr
  lead_bid_ntce_no :: pystr
  lead_bid_ntce_ord :: pystr
  lead_notice_title :: pystr
  lead_work_type :: pystr
  lead_agency_name :: pystr
  region_guess :: pystr
  lead_deadline_dt :: pystr
  lead_budget_amt :: pystr
  category :: pystr
  match_strength :: real
  lead_urgency_score :: int
  lead_source_url :: pystr
  contact_policy :: pystr
  lead_notes :: pystr

record SummaryStats =
  total_notices :: nat
  matched_notices :: nat
  by_category :: "(pystr, nat) pydict"
  by_work_type :: "(pystr, nat) pydict"

text \<open>
  The parsing and printing of dates by the library (\<open>datetime.strptime\<close>, with
  \<open>None\<close> for its \<open>ValueError\<close>, and \<open>strftime\<close>) and the clock are the fields of
  a parameter \<open>K\<close>; \<open>read_now K i\<close> is the reading of \<open>datetime.now()\<close> at the call of
  the scorer for the lead number \<open>i\<close>.
\<close>

record pyclock =
  strptime :: "pystr \<Rightarrow> pystr \<Rightarrow> datetime option"
  strftime :: "datetime \<Rightarrow> pystr \<Rightarrow> pystr"
  read_now :: "nat \<Rightarrow> datetime"

text \<open>
  A sample of these: a library that parses no deadline and prints dates as the empty
  string, and a clock that stands at 2026-01-01 09:30.
\<close>

definition sample_clock :: pyclock where
  "sample_clock =
     \<lparr>strptime = (\<lambda>v fmt. None), strftime = (\<lambda>d fmt. []),
      read_now = (\<lambda>i. dt 2026 1 1 9 30)\<rparr>"

text \<open>
  \<^verbatim>\<open>
  def build_leads(notices, as_of_date, top_n=50):
      repeated_keys = _find_repeated_titles(notices)
      leads = []; by_category = {}; by_work_type = {}
      for notice in notices:
          category, strength, _hits = match_category(notice.notice_title)
          by_work_type[notice.work_type] = by_work_type.get(notice.work_type, 0) + 1
          if category in (NOT_APPLICABLE, HOLD, UNASSIGNED):
              continue
          deadline = parse_datetime_guess(notice.deadline_dt)
          repeat = (notice.agency_name, _normalize_title(notice.notice_title)) in repeated_keys
          score = urgency_score(deadline, notice.budget_amt, repeat=repeat)
          by_category[category] = by_category.get(category, 0) + 1
          leads.append(LeadRecord(...))
      leads.sort(key=lambda x: x.urgency_score, reverse=True)
      selected = leads[:top_n]
      stats = SummaryStats(total_notices=len(notices), matched_notices=len(leads),
                           by_category=by_category, by_work_type=by_work_type)
      return selected, stats
  \<close>
  \<open>list.sort\<close> is stable, also with \<open>reverse=True\<close>: it is the stable sort by the
  negated score. \<open>slice_to\<close> is the slice \<open>leads[:top_n]\<close>, which for a negative
  \<open>top_n\<close> drops elements from the end.
\<close>

definition parse_datetime_guess :: "pyclock \<Rightarrow> pystr \<Rightarrow> datetime option" where
  "parse_datetime_guess K v =
     (if v = [] then None
      else
        let candidates =
          [[37, 89, 45, 37, 109, 45, 37, 100, 32, 37, 72, 58, 37, 77],
           [37, 89, 37, 109, 37, 100, 37, 72, 37, 77],
           [37, 89, 45, 37, 109, 45, 37, 100],
           [37, 89, 37, 109, 37, 100]]
        in (case List.map_filter (strptime K v) candidates of
              [] \<Rightarrow> None
            | d # _ \<Rightarrow> Some d))"

fun contains :: "pystr \<Rightarrow> pystr \<Rightarrow> bool" where
  "contains needle [] = (needle = [])"
| "contains needle (c # cs) = (take (length needle) (c # cs) = needle \<or> contains needle cs)"

definition REGIONS :: "pystr list" where
  "REGIONS =
     [[49436, 50872], [48512, 49328], [45824, 44396], [51064, 52380], [44305, 51452],
      [45824, 51204], [50872, 49328], [49464, 51333], [44221, 44592], [44053, 50896],
      [52649, 48513], [52649, 45224], [51204, 48513], [51204, 45224], [44221, 48513],
      [44221, 45224], [51228, 51452]]"

definition detect_region :: "pystr \<Rightarrow> pystr" where
  "detect_region agency =
     (case filter (\<lambda>needle. contains needle agency) REGIONS of
        [] \<Rightarrow> UNASSIGNED
      | region # _ \<Rightarrow> region)"

function decimal :: "nat \<Rightarrow> pystr" where
  "decimal n = (if n < 10 then [48 + n] else decimal (n div 10) @ [48 + n mod 10])"
  by pat_completeness auto
termination
  by (relation "measure id") auto

fun group_thousands :: "pystr \<Rightarrow> pystr" where
  "group_thousands (a # b # c # d # rest) = a # b # c # 44 # group_thousands (d # rest)"
| "group_thousands s = s"

definition format_thousands :: "int \<Rightarrow> pystr" where
  "format_thousands i =
     (if i < 0 then [45] else []) @ rev (group_thousands (rev (decimal (nat \<bar>i\<bar>))))"

definition py_int :: "real \<Rightarrow> int" where
  "py_int x = (if 0 \<le> x then \<lfloor>x\<rfloor> else \<lceil>x\<rceil>)"

definition round2 :: "real \<Rightarrow> real" where
  "round2 x = of_int (py_round (x * 100)) / 100"

definition slice_to :: "'a list \<Rightarrow> int \<Rightarrow> 'a list" where
  "slice_to xs n = (if 0 \<le> n then take (nat n) xs else take (length xs - nat (- n)) xs)"

definition NON_LEAD_CATEGORIES :: "pystr list" where
  "NON_LEAD_CATEGORIES = [NOT_APPLICABLE, HOLD, UNASSIGNED]"

definition CONTACT_POLICY :: pystr where
  "CONTACT_POLICY =
     [44060, 51064, 51221, 48372, 32, 52572, 49548, 49688, 51665, 47, 49688, 49888, 44144,
      48512, 32, 48143, 32, 50556, 44036, 48156, 49569, 32, 51228, 54620, 32, 51456, 49688]"

definition NOTES :: pystr where
  "NOTES =
     [51088, 46041, 32, 49328, 52636, 32, 47532, 46300, 46, 32, 50896, 47928, 32, 44277,
      44256, 50640, 49436, 32, 49464, 48512, 32, 50836, 44396, 49324, 54637, 32, 51116,
      54869, 51064, 32, 54596, 50836]"

type_synonym loop_state = "LeadRecord list \<times> (pystr, nat) pydict \<times> (pystr, nat) pydict"

definition build_step ::
  "pylib \<Rightarrow> pyclock \<Rightarrow> (pystr \<times> pystr) set \<Rightarrow> datetime \<Rightarrow> loop_state \<Rightarrow> RawNotice \<Rightarrow> loop_state" where
  "build_step L K repeated_keys as_of st notice =
     (case st of (leads, by_cat, by_wt) \<Rightarrow>
      (case match_category L (Some (notice_title notice)) of (cat, strength, hits) \<Rightarrow>
       let by_wt = dict_set by_wt (work_type notice) (dict_get by_wt (work_type notice) 0 + 1) in
       if cat \<in> set NON_LEAD_CATEGORIES then (leads, by_cat, by_wt)
       else
         let deadline = parse_datetime_guess K (deadline_dt notice);
             repeat = ((agency_name notice, normalize_title L (notice_title notice)) \<in> repeated_keys);
             score = urgency_score (read_now K (length leads)) deadline (budget_amt notice) repeat 0.6 0.8;
             by_cat = dict_set by_cat cat (dict_get by_cat cat 0 + 1)
         in (leads @
              [\<lparr>as_of_date = strftime K as_of [37, 89, 45, 37, 109, 45, 37, 100],
                lead_bid_ntce_no = bid_ntce_no notice,
                lead_bid_ntce_ord = bid_ntce_ord notice,
                lead_notice_title = notice_title notice,
                lead_work_type = work_type notice,
                lead_agency_name = agency_name notice,
                region_guess = detect_region (agency_name notice),
                lead_deadline_dt = (if deadline_dt notice = [] then UNASSIGNED else deadline_dt notice),
                lead_budget_amt =
                  (case budget_amt notice of
                     None \<Rightarrow> UNASSIGNED
                   | Some b \<Rightarrow> if b = 0 then UNASSIGNED else format_thousands (py_int b)),
                category = cat,
                match_strength = round2 strength,
                lead_urgency_score = score,
                lead_source_url = source_url notice,
                contact_policy = CONTACT_POLICY,
                lead_notes = NOTES\<rparr>],
             by_cat, by_wt)))"

definition build_loop :: "pylib \<Rightarrow> pyclock \<Rightarrow> RawNotice list \<Rightarrow> datetime \<Rightarrow> loop_state" where
  "build_loop L K notices as_of =
     foldl (build_step L K (find_repeated_titles L notices) as_of) ([], [], []) notices"

definition build_leads ::
  "pylib \<Rightarrow> pyclock \<Rightarrow> RawNotice list \<Rightarrow> datetime \<Rightarrow> int \<Rightarrow> LeadRecord list \<times> SummaryStats" where
  "build_leads L K notices as_of top_n =
     (case build_loop L K notices as_of of (leads, by_cat, by_wt) \<Rightarrow>
      let leads = sort_key (\<lambda>x. - lead_urgency_score x) leads;
          selected = slice_to leads top_n;
          stats = \<lparr>total_notices = length notices, matched_notices = length leads,
                   by_category = by_cat, by_work_type = by_wt\<rparr>
      in (selected, stats))"

text \<open>
  A sample batch: two training notices of one agency, the first with a year in its title
  and a budget of 99, and a road notice of another agency.
\<close>

definition sample_batch :: "RawNotice list" where
  "sample_batch =
     [mk_RawNotice [50] [48] [44368, 50977, 32, 50, 48, 50, 53] [85] [83] [] [] (Some 99) [117],
      mk_RawNotice [49] [48] [44368, 50977] [85] [83] [] [] None [117],
      mk_RawNotice [51] [48] [46020, 47196] [87] [84] [] [] None [117]]"

section \<open>The scoring formula as the specification words it\<close>



section \<open>Vocabulary of the fetcher's failure policy\<close>

text \<open>
  An outcome is retried when it is a rate-limit or server-class status or any exception
  other than an HTTP status error; \<open>raised\<close> is the exception of an outcome;
  \<open>backoff k\<close> lists the delays slept before attempt \<open>k\<close>.
\<close>

fun retryable :: "'a outcome \<Rightarrow> bool" where
  "retryable (Returned _) = False"
| "retryable (Raised (HTTPError code)) = (code = 429 \<or> code \<ge> 500)"
| "retryable (Raised (OtherError _)) = True"

fun raised :: "'a outcome \<Rightarrow> py_exception option" where
  "raised (Returned _) = None"
| "raised (Raised exc) = Some exc"

definition backoff :: "nat \<Rightarrow> nat list" where
  "backoff k = map (\<lambda>attempt. min (2 ^ attempt) 8) [1..<k]"

section \<open>Vocabulary of the classifier, the detector and the ranker\<close>

text \<open>
  The words of the specification: the stripped text of a title, the number of include
  and exclude patterns it hits, whether it matches the organizational or the evaluation
  terms; the group of a notice; the category of a notice and whether it is a positive
  match; the leads in the order of their construction and in their ranking; and the
  count of the elements of a list by a key, as a dictionary.
\<close>

definition title_text :: "pylib \<Rightarrow> pystr option \<Rightarrow> pystr" where
  "title_text L title = py_strip L (case title of None \<Rightarrow> [] | Some t \<Rightarrow> t)"

definition include_count :: "pylib \<Rightarrow> pystr option \<Rightarrow> nat" where
  "include_count L title =
     length (filter (\<lambda>pat. re_search L pat (title_text L title)) INCLUDE_PATTERNS)"

definition exclude_count :: "pylib \<Rightarrow> pystr option \<Rightarrow> nat" where
  "exclude_count L title =
     length (filter (\<lambda>pat. re_search L pat (title_text L title)) EXCLUDE_PATTERNS)"

definition od_title :: "pylib \<Rightarrow> pystr option \<Rightarrow> bool" where
  "od_title L title = re_search_any L OD_TERMS (title_text L title)"

definition evaluation_title :: "pylib \<Rightarrow> pystr option \<Rightarrow> bool" where
  "evaluation_title L title = re_search_any L EVALUATION_TERMS (title_text L title)"

definition category_of :: "pystr \<times> real \<times> pattern list \<Rightarrow> pystr" where
  "category_of r = fst r"

definition strength_of :: "pystr \<times> real \<times> pattern list \<Rightarrow> real" where
  "strength_of r = fst (snd r)"

definition tally :: "('a \<Rightarrow> 'k) \<Rightarrow> 'a list \<Rightarrow> ('k, nat) pydict" where
  "tally f xs = foldl (\<lambda>d x. dict_set d (f x) (dict_get d (f x) 0 + 1)) [] xs"


definition notice_category :: "pylib \<Rightarrow> RawNotice \<Rightarrow> pystr" where
  "notice_category L n = fst (match_category L (Some (notice_title n)))"

definition is_lead :: "pylib \<Rightarrow> RawNotice \<Rightarrow> bool" where
  "is_lead L n = (notice_category L n \<notin> set NON_LEAD_CATEGORIES)"

definition all_leads :: "pylib \<Rightarrow> pyclock \<Rightarrow> RawNotice list \<Rightarrow> datetime \<Rightarrow> LeadRecord list" where
  "all_leads L K notices as_of = fst (build_loop L K notices as_of)"

definition ranked_leads :: "pylib \<Rightarrow> pyclock \<Rightarrow> RawNotice list \<Rightarrow> datetime \<Rightarrow> LeadRecord list" where
  "ranked_leads L K notices as_of =
     sort_key (\<lambda>x. - lead_urgency_score x) (all_leads L K notices as_of)"

section \<open>Vocabulary of the window plan\<close>

text \<open>
  Windows are adjacent when each starts at the step after the start of the one before and
  one minute after its end; a window is a clipped step when it ends at the earlier of
  the overall end and the minute before the step after its start; the planner can
  advance past an end that is not on the last day (daily) or in the last month (monthly)
  of the year 9999; \<open>planned\<close> collects what holds of the windows from a cursor.
\<close>

fun adjacent :: "pystr \<Rightarrow> (datetime \<times> datetime) list \<Rightarrow> bool" where
  "adjacent mode (w1 # w2 # ws) =
     (next_cursor mode (fst w1) = Inr (fst w2)
      \<and> minus_one_minute (fst w2) = Inr (snd w1)
      \<and> adjacent mode (w2 # ws))"
| "adjacent mode ws = True"

definition clipped_step :: "pystr \<Rightarrow> datetime \<Rightarrow> datetime \<times> datetime \<Rightarrow> bool" where
  "clipped_step mode end_dt w =
     (case next_cursor mode (fst w) of
        Inl err \<Rightarrow> False
      | Inr nxt \<Rightarrow>
          (case minus_one_minute nxt of
             Inl err \<Rightarrow> False
           | Inr before_nxt \<Rightarrow> snd w = py_min end_dt before_nxt \<and> dt_le (snd w) before_nxt))"

definition can_advance :: "pystr \<Rightarrow> datetime \<Rightarrow> bool" where
  "can_advance mode end_dt =
     (if mode = MONTHLY then \<not> (year end_dt = 9999 \<and> month end_dt = 12)
      else \<not> (year end_dt = 9999 \<and> month end_dt = 12 \<and> day end_dt = 31))"

definition planned :: "datetime \<Rightarrow> datetime \<Rightarrow> pystr \<Rightarrow> bool" where
  "planned c e mode =
     (let ws = fst (iter_windows c e mode) in
      snd (iter_windows c e mode) = None
      \<and> (dt_le c e \<longrightarrow> ws \<noteq> [] \<and> fst (hd ws) = c)
      \<and> (\<not> dt_le c e \<longrightarrow> ws = [])
      \<and> adjacent mode ws
      \<and> (\<forall>w \<in> set ws. dt_le (fst w) e \<and> dt_le (snd w) e \<and> clipped_step mode e w)
      \<and> (ws \<noteq> [] \<longrightarrow> (\<exists>nxt. next_cursor mode (fst (last ws)) = Inr nxt \<and> dt_less e nxt)))"

section \<open>Properties of the deduplicator\<close>

lemma set_first_occurrences: "set (first_occurrences xs) = set xs"
  by (induction xs rule: first_occurrences.induct) auto

lemma distinct_first_occurrences: "distinct (first_occurrences xs)"
  by (induction xs rule: first_occurrences.induct) (auto simp: set_first_occurrences)

lemma length_first_occurrences: "length (first_occurrences xs) \<le> length xs"
proof (induction xs rule: first_occurrences.induct)
  case 1
  show ?case by simp
next
  case (2 x xs)
  have "length (first_occurrences (removeAll x xs)) \<le> length (removeAll x xs)"
    by (rule 2)
  also have "\<dots> \<le> length xs"
    by (rule length_removeAll_less_eq)
  finally show ?case by simp
qed

lemma removeAll_swap: "removeAll a (removeAll b xs) = removeAll b (removeAll a xs)"
  by (induction xs) auto

lemma first_occurrences_removeAll:
  "first_occurrences (removeAll y xs) = removeAll y (first_occurrences xs)"
proof (induction xs rule: first_occurrences.induct)
  case 1
  show ?case by simp
next
  case (2 x xs)
  show ?case
  proof (cases "x = y")
    case True
    have "y \<notin> set (first_occurrences (removeAll y xs))"
      by (simp add: set_first_occurrences)
    then show ?thesis using True by simp
  next
    case False
    then show ?thesis using 2 by (simp add: removeAll_swap)
  qed
qed

lemma first_occurrences_snoc:
  "first_occurrences (xs @ [x]) =
     (if x \<in> set xs then first_occurrences xs else first_occurrences xs @ [x])"
proof (induction xs rule: first_occurrences.induct)
  case 1
  show ?case by simp
next
  case (2 y ys)
  then show ?case by (auto simp: first_occurrences_removeAll)
qed

lemma keys_dict_set:
  "map fst (dict_set d k v) = (if k \<in> set (map fst d) then map fst d else map fst d @ [k])"
proof (induction d)
  case Nil
  show ?case by simp
next
  case (Cons e d)
  obtain k' v' where e: "e = (k', v')" by (cases e)
  show ?case
  proof (cases "k' = k")
    case True
    with e show ?thesis by simp
  next
    case False
    with e Cons.IH show ?thesis by simp
  qed
qed

lemma set_dict_set:
  "distinct (map fst d) \<Longrightarrow>
   set (dict_set d k v) = insert (k, v) {e \<in> set d. fst e \<noteq> k}"
proof (induction d)
  case Nil
  show ?case by simp
next
  case (Cons e d)
  obtain k' v' where e: "e = (k', v')" by (cases e)
  from Cons.prems have dist: "distinct (map fst d)" by simp
  show ?case
  proof (cases "k' = k")
    case True
    with Cons.prems e have "\<forall>x \<in> set d. fst x \<noteq> k" by force
    then have "{x \<in> set d. fst x \<noteq> k} = set d" by blast
    moreover have "{x \<in> set (e # d). fst x \<noteq> k} = {x \<in> set d. fst x \<noteq> k}"
      using True e by force
    moreover have "set (dict_set (e # d) k v) = insert (k, v) (set d)"
      using True e by simp
    ultimately show ?thesis by simp
  next
    case False
    have "set (dict_set (e # d) k v) = insert (k', v') (set (dict_set d k v))"
      using False e by simp
    also have "\<dots> = insert (k', v') (insert (k, v) {x \<in> set d. fst x \<noteq> k})"
      by (simp only: Cons.IH[OF dist])
    also have "\<dots> = insert (k, v) {x \<in> set (e # d). fst x \<noteq> k}"
      using False e by force
    finally show ?thesis .
  qed
qed

lemma dedupe_fold_snoc:
  "foldl dedupe_step [] (ns @ [n]) = dict_set (foldl dedupe_step [] ns) (notice_key n) n"
  by (simp add: dedupe_step_def notice_key_def)

lemma dedupe_fold_keys:
  "map fst (foldl dedupe_step [] ns) = first_occurrences (map notice_key ns)"
proof (induction ns rule: rev_induct)
  case Nil
  show ?case by simp
next
  case (snoc n ns)
  have "set (map fst (foldl dedupe_step [] ns)) = set (map notice_key ns)"
    by (simp only: snoc.IH set_first_occurrences)
  then show ?case
    by (simp only: dedupe_fold_snoc keys_dict_set snoc.IH map_append list.map
        first_occurrences_snoc)
qed

lemma dedupe_fold_entries:
  "(k, v) \<in> set (foldl dedupe_step [] ns) \<Longrightarrow>
   v = last (filter (\<lambda>m. notice_key m = k) ns) \<and> notice_key v = k \<and> v \<in> set ns"
proof (induction ns arbitrary: k v rule: rev_induct)
  case Nil
  then show ?case by simp
next
  case (snoc n ns)
  have dist: "distinct (map fst (foldl dedupe_step [] ns))"
    by (simp only: dedupe_fold_keys distinct_first_occurrences)
  from snoc.prems have mem:
    "(k, v) \<in> insert (notice_key n, n) {e \<in> set (foldl dedupe_step [] ns). fst e \<noteq> notice_key n}"
    by (simp only: dedupe_fold_snoc set_dict_set[OF dist])
  show ?case
  proof (cases "k = notice_key n")
    case True
    with mem have "v = n" by auto
    with True show ?thesis by simp
  next
    case False
    with mem have "(k, v) \<in> set (foldl dedupe_step [] ns)" by auto
    from snoc.IH[OF this] False show ?thesis by auto
  qed
qed

lemma dedupe_keys:
  "map notice_key (dedupe_notices ns) = first_occurrences (map notice_key ns)"
proof -
  have "\<forall>e \<in> set (foldl dedupe_step [] ns). notice_key (snd e) = fst e"
  proof
    fix e assume "e \<in> set (foldl dedupe_step [] ns)"
    then have "(fst e, snd e) \<in> set (foldl dedupe_step [] ns)" by simp
    from dedupe_fold_entries[OF this] show "notice_key (snd e) = fst e" by blast
  qed
  then have "map notice_key (map snd (foldl dedupe_step [] ns)) = map fst (foldl dedupe_step [] ns)"
    by (simp add: comp_def)
  then show ?thesis
    by (simp only: dedupe_notices_def dict_values_def dedupe_fold_keys)
qed

text \<open>
  C3. For every list of notices, \<open>dedupe_notices\<close> returns a list that is no longer
  than its input; its keys (notice identifier, amendment ordinal) are exactly the keys
  of the input, each once, in the order in which each key was first met; and the notice
  kept for a key is the last notice of the input that has this key.
\<close>

theorem dedupe_notices_correct:
  "length (dedupe_notices ns) \<le> length ns
   \<and> distinct (map notice_key (dedupe_notices ns))
   \<and> set (map notice_key (dedupe_notices ns)) = set (map notice_key ns)
   \<and> map notice_key (dedupe_notices ns) = first_occurrences (map notice_key ns)
   \<and> (\<forall>n \<in> set (dedupe_notices ns).
        n = last (filter (\<lambda>m. notice_key m = notice_key n) ns))"
proof -
  have len: "length (dedupe_notices ns) \<le> length ns"
  proof -
    have "length (dedupe_notices ns) = length (map notice_key (dedupe_notices ns))" by simp
    also have "\<dots> = length (first_occurrences (map notice_key ns))"
      by (simp only: dedupe_keys)
    also have "\<dots> \<le> length (map notice_key ns)" by (rule length_first_occurrences)
    finally show ?thesis by simp
  qed
  have dist: "distinct (map notice_key (dedupe_notices ns))"
    by (simp only: dedupe_keys distinct_first_occurrences)
  have keys: "set (map notice_key (dedupe_notices ns)) = set (map notice_key ns)"
    by (simp only: dedupe_keys set_first_occurrences)
  have lastocc: "\<forall>n \<in> set (dedupe_notices ns).
        n = last (filter (\<lambda>m. notice_key m = notice_key n) ns)"
  proof
    fix n assume "n \<in> set (dedupe_notices ns)"
    then obtain k where kn: "(k, n) \<in> set (foldl dedupe_step [] ns)"
      by (auto simp: dedupe_notices_def dict_values_def)
    from dedupe_fold_entries[OF kn]
    have "n = last (filter (\<lambda>m. notice_key m = k) ns)" and "notice_key n = k"
      by blast+
    then show "n = last (filter (\<lambda>m. notice_key m = notice_key n) ns)"
      by (simp only:)
  qed
  from len dist keys dedupe_keys lastocc show ?thesis by blast
qed

text \<open>
  The theorem at the batch of the repository's own test: two notices with key
  ("123", "1"), the second with an amended title; the second one is kept.
\<close>

theorem dedupe_notices_correct_witness:
  "dedupe_notices
     [mk_RawNotice [49,50,51] [49] [65] [85] [83] [] [] None [117],
      mk_RawNotice [49,50,51] [49] [66] [85] [83] [] [] None [117]]
     = [mk_RawNotice [49,50,51] [49] [66] [85] [83] [] [] None [117]]
   \<and> mk_RawNotice [49,50,51] [49] [66] [85] [83] [] [] None [117]
       \<in> set (dedupe_notices
           [mk_RawNotice [49,50,51] [49] [65] [85] [83] [] [] None [117],
            mk_RawNotice [49,50,51] [49] [66] [85] [83] [] [] None [117]])
   \<and> mk_RawNotice [49,50,51] [49] [66] [85] [83] [] [] None [117]
       = last (filter (\<lambda>m. notice_key m
                 = notice_key (mk_RawNotice [49,50,51] [49] [66] [85] [83] [] [] None [117]))
           [mk_RawNotice [49,50,51] [49] [65] [85] [83] [] [] None [117],
            mk_RawNotice [49,50,51] [49] [66] [85] [83] [] [] None [117]])"
  using dedupe_notices_correct
    [of "[mk_RawNotice [49,50,51] [49] [65] [85] [83] [] [] None [117],
          mk_RawNotice [49,50,51] [49] [66] [85] [83] [] [] None [117]]"]
  by (simp add: dedupe_notices_def dedupe_step_def dict_values_def notice_key_def
      mk_RawNotice_def)

section \<open>Properties of the urgency scorer\<close>

lemma py_round_close: "\<bar>of_int (py_round x) - x\<bar> \<le> 1/2"
  unfolding py_round_def Let_def by (auto simp: abs_if) linarith+


lemma py_round_lower: "of_int a \<le> x \<Longrightarrow> a \<le> py_round x"
proof -
  assume a: "of_int a \<le> x"
  have "x - 1/2 \<le> of_int (py_round x)" using py_round_close[of x] by (simp add: abs_if split: if_splits)
  with a have "real_of_int a - 1/2 \<le> of_int (py_round x)" by linarith
  then show ?thesis by linarith
qed

lemma py_round_upper: "x \<le> of_int b \<Longrightarrow> py_round x \<le> b"
proof -
  assume a: "x \<le> of_int b"
  have "of_int (py_round x) \<le> x + 1/2" using py_round_close[of x] by (simp add: abs_if split: if_splits)
  with a have "of_int (py_round x) \<le> real_of_int b + 1/2" by linarith
  then show ?thesis by linarith
qed

lemma deadline_score_bounds: "0 < deadline_score now d \<and> deadline_score now d \<le> 1"
proof (cases d)
  case None
  then show ?thesis by (simp add: deadline_score_def)
next
  case (Some t)
  have "0 \<le> real_of_int (max (timedelta_days t now) 0) / 7" by simp
  then have "1 \<le> 1 + real_of_int (max (timedelta_days t now) 0) / 7" by linarith
  then show ?thesis using Some by (simp add: deadline_score_def Let_def)
qed

lemma budget_score_bounds: "0 < budget_score b \<and> budget_score b \<le> 1"
proof (cases b)
  case None
  then show ?thesis by (simp add: budget_score_def)
next
  case (Some x)
  show ?thesis
  proof (cases "0 < x")
    case True
    then have "0 < log 10 (x + 1)" by simp
    then show ?thesis using Some True by (simp add: budget_score_def)
  next
    case False
    then show ?thesis using Some by (simp add: budget_score_def)
  qed
qed


lemma raw_score_default_bounds:
  "17 < raw_score now d b r 0.6 0.8 \<and> raw_score now d b r 0.6 0.8 \<le> 92"
  using deadline_score_bounds[of now d] budget_score_bounds[of b]
  unfolding raw_score_def by (cases r) simp_all

lemma score_default_range:
  "17 \<le> urgency_score now d b r 0.6 0.8 \<and> urgency_score now d b r 0.6 0.8 \<le> 92
   \<and> max 0.0 (min 100.0 (raw_score now d b r 0.6 0.8)) = raw_score now d b r 0.6 0.8
   \<and> urgency_score now d b r 0.6 0.8 \<noteq> 100"
proof -
  let ?s = "raw_score now d b r 0.6 0.8"
  have b: "17 < ?s" "?s \<le> 92" using raw_score_default_bounds[of now d b r] by simp_all
  then have clamp: "max 0.0 (min 100.0 ?s) = ?s" by simp
  have u: "urgency_score now d b r 0.6 0.8 = py_round ?s"
    by (simp only: urgency_score_def clamp)
  have lo: "17 \<le> py_round ?s" using b(1) py_round_lower[of 17 ?s] by simp
  have hi: "py_round ?s \<le> 92" using b(2) py_round_upper[of ?s 92] by simp
  from lo hi u clamp show ?thesis by simp
qed

lemma score_range:
  "0 \<le> urgency_score now d b r aw fw \<and> urgency_score now d b r aw fw \<le> 100"
proof -
  let ?c = "max 0.0 (min 100.0 (raw_score now d b r aw fw))"
  have "of_int 0 \<le> ?c" "?c \<le> of_int 100" by simp_all
  then have "0 \<le> py_round ?c" "py_round ?c \<le> 100"
    using py_round_lower[of 0 ?c] py_round_upper[of ?c 100] by simp_all
  then show ?thesis by (simp add: urgency_score_def)
qed

lemma deadline_score_antimono:
  assumes "total_microseconds d1 \<le> total_microseconds d2"
  shows "deadline_score now (Some d2) \<le> deadline_score now (Some d1)"
proof -
  have "timedelta_days d1 now \<le> timedelta_days d2 now"
    unfolding timedelta_days_def using assms by (intro zdiv_mono1) simp_all
  then have le: "real_of_int (max (timedelta_days d1 now) 0) \<le> real_of_int (max (timedelta_days d2 now) 0)"
    by simp
  have pos: "0 < 1 + real_of_int (max (timedelta_days d1 now) 0) / 7"
    by (simp add: add_pos_nonneg)
  show ?thesis
    unfolding deadline_score_def Let_def option.case
    using le pos by (intro divide_left_mono) (simp_all add: add_pos_nonneg)
qed

lemma py_round_strict:
  assumes "x + 1 < y"
  shows "py_round x < py_round y"
proof -
  have "of_int (py_round x) \<le> x + 1/2" using py_round_close[of x] by (simp add: abs_if split: if_splits)
  moreover have "y - 1/2 \<le> of_int (py_round y)" using py_round_close[of y] by (simp add: abs_if split: if_splits)
  ultimately have "real_of_int (py_round x) < of_int (py_round y)" using assms by linarith
  then show ?thesis by simp
qed

lemma budget_score_compare:
  assumes "b2 < b1"
  shows "budget_score (Some b2) < budget_score (Some b1) + 1/2"
proof (cases "0 < b2")
  case True
  with assms have b1: "0 < b1" by simp
  have "log 10 (b2 + 1) \<le> log 10 (b1 + 1)" using True assms by simp
  then have "min 1 (log 10 (b2 + 1) / 9) \<le> min 1 (log 10 (b1 + 1) / 9)"
    by (simp add: min_le_iff_disj)
  then show ?thesis using True b1 by (simp add: budget_score_def)
next
  case False
  then have "budget_score (Some b2) = 1/2" by (simp add: budget_score_def)
  moreover have "0 < budget_score (Some b1)" using budget_score_bounds by blast
  ultimately show ?thesis by simp
qed

lemma score_strict:
  assumes "total_microseconds d1 < total_microseconds d2" and "b2 < b1"
  shows "urgency_score now (Some d2) (Some b2) False 0.6 0.8
         < urgency_score now (Some d1) (Some b1) True 0.6 0.8"
proof -
  let ?s1 = "raw_score now (Some d1) (Some b1) True 0.6 0.8"
  let ?s2 = "raw_score now (Some d2) (Some b2) False 0.6 0.8"
  have D: "deadline_score now (Some d2) \<le> deadline_score now (Some d1)"
    using assms(1) by (intro deadline_score_antimono) simp
  have B: "budget_score (Some b2) < budget_score (Some b1) + 1/2"
    using assms(2) by (rule budget_score_compare)
  have "?s2 + 1 < ?s1"
    using D B unfolding raw_score_def by simp
  then have "py_round ?s2 < py_round ?s1" by (rule py_round_strict)
  moreover have "max 0.0 (min 100.0 ?s1) = ?s1" "max 0.0 (min 100.0 ?s2) = ?s2"
    using score_default_range by blast+
  ultimately show ?thesis by (simp only: urgency_score_def)
qed





lemma log10_100: "log 10 100 = 2"
proof -
  have "log 10 (10 ^ 2) = real 2" by (rule log_pow_cancel) simp_all
  then show ?thesis by simp
qed


lemma ex_micro_lt:
  "total_microseconds (dt 2026 1 2 9 30) < total_microseconds (dt 2026 1 31 9 30)"
  by (simp add: total_microseconds_def toordinal_def days_before_year_def
      days_before_month_def days_in_month_def is_leap_def dt_def upto.simps)



text \<open>
  C4. For all inputs the score lies between 0 and 100; and of two calls at the same
  clock reading with the fixed weights, the one with the strictly nearer deadline, the
  strictly larger budget and the repeat flag set scores strictly higher than the one with
  the farther deadline, the smaller budget and no repeat flag.
\<close>

theorem urgency_score_bounded_and_ordered:
  "(0 \<le> urgency_score now d b r aw fw \<and> urgency_score now d b r aw fw \<le> 100)
   \<and> (total_microseconds d1 < total_microseconds d2 \<longrightarrow> b2 < b1 \<longrightarrow>
        urgency_score now (Some d2) (Some b2) False 0.6 0.8
          < urgency_score now (Some d1) (Some b1) True 0.6 0.8)"
  using score_range[of now d b r aw fw] score_strict[of d1 d2 b2 b1 now] by blast

text \<open>
  The theorem at a deadline one day ahead against one thirty days ahead, budgets 99 and 9.
\<close>

theorem urgency_score_bounded_and_ordered_witness:
  "total_microseconds (dt 2026 1 2 9 30) < total_microseconds (dt 2026 1 31 9 30)
   \<and> (9 :: real) < 99
   \<and> urgency_score (dt 2026 1 1 9 30) (Some (dt 2026 1 31 9 30)) (Some 9) False 0.6 0.8
       < urgency_score (dt 2026 1 1 9 30) (Some (dt 2026 1 2 9 30)) (Some 99) True 0.6 0.8
   \<and> 0 \<le> urgency_score (dt 2026 1 1 9 30) None None False 0.6 0.8
   \<and> urgency_score (dt 2026 1 1 9 30) None None False 0.6 0.8 \<le> 100"
  using urgency_score_bounded_and_ordered
    [of "dt 2026 1 1 9 30" None None False "0.6" "0.8" "dt 2026 1 2 9 30" "dt 2026 1 31 9 30" 9 99]
    ex_micro_lt
  by simp

text \<open>
  C10. With the default agency weight 0.6 and fit weight 0.8 the score is between 17
  and 92 inclusive for every deadline, budget and repeat flag; the clamp to the interval
  from 0 to 100 leaves the weighted sum as it is; and the score is never 100.
\<close>

theorem urgency_score_default_between_17_and_92:
  "17 \<le> urgency_score now d b r 0.6 0.8 \<and> urgency_score now d b r 0.6 0.8 \<le> 92
   \<and> max 0.0 (min 100.0 (raw_score now d b r 0.6 0.8)) = raw_score now d b r 0.6 0.8
   \<and> urgency_score now d b r 0.6 0.8 \<noteq> 100"
  by (rule score_default_range)

text \<open>
  The theorem where neither a deadline nor a budget is known and the notice is not a
  repeat: the score is 47.
\<close>

theorem urgency_score_default_between_17_and_92_witness:
  "urgency_score (dt 2026 1 1 9 30) None None False 0.6 0.8 = 47
   \<and> 17 \<le> urgency_score (dt 2026 1 1 9 30) None None False 0.6 0.8
   \<and> urgency_score (dt 2026 1 1 9 30) None None False 0.6 0.8 \<le> 92"
proof -
  have "urgency_score (dt 2026 1 1 9 30) None None False 0.6 0.8 = 47"
    by (simp add: urgency_score_def raw_score_def deadline_score_def budget_score_def
        py_round_def Let_def)
  then show ?thesis
    using urgency_score_default_between_17_and_92[of "dt 2026 1 1 9 30" None None False]
    by simp
qed

section \<open>Properties of the retrying fetcher\<close>

lemma request_loop_retry:
  assumes "retryable (attempts k)" and "k < MAX_RETRIES"
  shows "request_loop attempts k le slept
         = request_loop attempts (Suc k) (raised (attempts k)) (slept @ [min (2 ^ k) 8])"
proof (cases "attempts k")
  case (Returned v)
  with assms show ?thesis by simp
next
  case (Raised exc)
  with assms show ?thesis
    by (cases exc) (auto simp: request_loop.simps[of attempts k])
qed

lemma request_loop_skip:
  assumes "a \<le> k" and "k \<le> MAX_RETRIES"
    and "\<forall>j. a \<le> j \<and> j < k \<longrightarrow> retryable (attempts j)"
  shows "request_loop attempts a le slept
         = request_loop attempts k (if k = a then le else raised (attempts (k - 1)))
             (slept @ map (\<lambda>attempt. min (2 ^ attempt) 8) [a..<k])"
  using assms
proof (induction k rule: dec_induct)
  case base
  show ?case by simp
next
  case (step n)
  have r: "retryable (attempts n)" using step.prems step.hyps by simp
  have lt: "n < MAX_RETRIES" using step.prems by simp
  have "request_loop attempts a le slept
        = request_loop attempts n (if n = a then le else raised (attempts (n - 1)))
            (slept @ map (\<lambda>attempt. min (2 ^ attempt) 8) [a..<n])"
    using step.IH step.prems by simp
  also have "\<dots> = request_loop attempts (Suc n) (raised (attempts n))
            ((slept @ map (\<lambda>attempt. min (2 ^ attempt) 8) [a..<n]) @ [min (2 ^ n) 8])"
    using r lt by (rule request_loop_retry)
  finally show ?case using step.hyps by simp
qed

lemma request_json_reaches:
  assumes "1 \<le> k" and "k \<le> MAX_RETRIES"
    and "\<forall>j. 1 \<le> j \<and> j < k \<longrightarrow> retryable (attempts j)"
  shows "request_json attempts
         = request_loop attempts k (if k = 1 then None else raised (attempts (k - 1))) (backoff k)"
  unfolding request_json_def backoff_def
  using request_loop_skip[OF assms(1) assms(2) assms(3), of None "[]"] by simp

lemma request_json_auth:
  assumes "1 \<le> k" and "k \<le> MAX_RETRIES"
    and "\<forall>j. 1 \<le> j \<and> j < k \<longrightarrow> retryable (attempts j)"
    and "attempts k = Raised (HTTPError code)" and "code = 401 \<or> code = 403"
  shows "request_json attempts = (Inl (AuthError code), backoff k)"
  using assms(2,4,5)
  by (auto simp: request_json_reaches[OF assms(1,2,3)] request_loop.simps[of attempts k])

lemma request_json_success:
  assumes "1 \<le> k" and "k \<le> MAX_RETRIES"
    and "\<forall>j. 1 \<le> j \<and> j < k \<longrightarrow> retryable (attempts j)"
    and "attempts k = Returned payload"
  shows "request_json attempts = (Inr payload, backoff k)"
  using assms(2,4)
  by (simp add: request_json_reaches[OF assms(1,2,3)] request_loop.simps[of attempts k])

lemma request_json_exhausted:
  assumes "\<forall>j. 1 \<le> j \<and> j \<le> MAX_RETRIES \<longrightarrow> retryable (attempts j)"
  shows "request_json attempts = (Inl (CallFailed (raised (attempts MAX_RETRIES))), [2, 4, 8])"
proof -
  have a: "\<forall>j. 1 \<le> j \<and> j < MAX_RETRIES \<longrightarrow> retryable (attempts j)" using assms by simp
  have r: "retryable (attempts MAX_RETRIES)" using assms by (simp add: MAX_RETRIES_def)
  have b: "backoff MAX_RETRIES = [2, 4, 8]"
    by (simp add: backoff_def MAX_RETRIES_def upt_rec)
  have "request_json attempts
        = request_loop attempts MAX_RETRIES (raised (attempts (MAX_RETRIES - 1))) [2, 4, 8]"
    using request_json_reaches[of MAX_RETRIES attempts, OF _ _ a] b
    by (simp add: MAX_RETRIES_def)
  also have "\<dots> = (Inl (CallFailed (raised (attempts MAX_RETRIES))), [2, 4, 8])"
  proof (cases "attempts MAX_RETRIES")
    case (Returned v)
    with r show ?thesis by simp
  next
    case (Raised exc)
    with r show ?thesis
      by (cases exc) (auto simp: request_loop.simps[of attempts MAX_RETRIES])
  qed
  finally show ?thesis .
qed

text \<open>
  C9. When the attempts before attempt \<open>k\<close> (at most the fourth) all fail with a
  retried error, a status 401 or 403 at attempt \<open>k\<close> raises the authorization error at
  once and a parsed document at attempt \<open>k\<close> is returned at once, in both cases after
  only the delays min(2^attempt, 8) of the attempts before; when all four attempts fail
  with a retried error (status 429, status 500 or above, or any other exception), the
  function sleeps 2, 4 and 8 between them and raises the error that wraps the last one.
\<close>

theorem request_json_failure_policy:
  "(1 \<le> k \<and> k \<le> MAX_RETRIES \<and> (\<forall>j. 1 \<le> j \<and> j < k \<longrightarrow> retryable (attempts j)) \<longrightarrow>
      (\<forall>code. attempts k = Raised (HTTPError code) \<and> (code = 401 \<or> code = 403) \<longrightarrow>
          request_json attempts = (Inl (AuthError code), backoff k))
      \<and> (\<forall>payload. attempts k = Returned payload \<longrightarrow>
          request_json attempts = (Inr payload, backoff k)))
   \<and> ((\<forall>j. 1 \<le> j \<and> j \<le> MAX_RETRIES \<longrightarrow> retryable (attempts j)) \<longrightarrow>
        request_json attempts
          = (Inl (CallFailed (raised (attempts MAX_RETRIES))), [2, 4, 8]))
   \<and> MAX_RETRIES = 4"
  using request_json_auth[of k attempts] request_json_success[of k attempts]
    request_json_exhausted[of attempts]
  by (simp add: MAX_RETRIES_def)

text \<open>
  The theorem at three networks: one that answers 401 at once; one that fails with 503,
  then with a network error, then answers; one that always answers 500.
\<close>

theorem request_json_failure_policy_witness:
  "request_json (\<lambda>k. Raised (HTTPError 401) :: nat outcome) = (Inl (AuthError 401), [])
   \<and> request_json (\<lambda>k. if k = 1 then Raised (HTTPError 503)
                        else if k = 2 then Raised (OtherError [])
                        else Returned (7 :: nat)) = (Inr 7, [2, 4])
   \<and> request_json (\<lambda>k. Raised (HTTPError 500) :: nat outcome)
       = (Inl (CallFailed (Some (HTTPError 500))), [2, 4, 8])"
proof -
  have b1: "backoff 1 = []" and b3: "backoff 3 = [2, 4]"
    by (simp_all add: backoff_def upt_rec)
  have "request_json (\<lambda>k. Raised (HTTPError 401) :: nat outcome) = (Inl (AuthError 401), [])"
    using request_json_failure_policy[of 1 "\<lambda>k. Raised (HTTPError 401) :: nat outcome"] b1
    by (simp add: MAX_RETRIES_def)
  moreover have "request_json (\<lambda>k. if k = 1 then Raised (HTTPError 503)
                        else if k = 2 then Raised (OtherError [])
                        else Returned (7 :: nat)) = (Inr 7, [2, 4])"
    using request_json_failure_policy[of 3 "\<lambda>k. if k = 1 then Raised (HTTPError 503)
                        else if k = 2 then Raised (OtherError [])
                        else Returned (7 :: nat)"] b3
    by (simp add: MAX_RETRIES_def)
  moreover have "request_json (\<lambda>k. Raised (HTTPError 500) :: nat outcome)
       = (Inl (CallFailed (Some (HTTPError 500))), [2, 4, 8])"
    using request_json_failure_policy[of 1 "\<lambda>k. Raised (HTTPError 500) :: nat outcome"]
    by (simp add: MAX_RETRIES_def)
  ultimately show ?thesis by blast
qed

section \<open>Properties of the classifier\<close>

lemma match_category_cases:
  "match_category L title =
     (if title_text L title = [] then (UNASSIGNED, 0, [])
      else if include_count L title = 0 then (NOT_APPLICABLE, 0, [])
      else if 0 < exclude_count L title \<and> include_count L title \<le> exclude_count L title
        then (HOLD, 0.45, filter (\<lambda>pat. re_search L pat (title_text L title)) INCLUDE_PATTERNS)
      else if od_title L title
        then (OD_ORGANIZATION, 0.84, filter (\<lambda>pat. re_search L pat (title_text L title)) INCLUDE_PATTERNS)
      else if evaluation_title L title
        then (EVALUATION_SYSTEM, 0.78, filter (\<lambda>pat. re_search L pat (title_text L title)) INCLUDE_PATTERNS)
      else (HRD_TRAINING, 0.72, filter (\<lambda>pat. re_search L pat (title_text L title)) INCLUDE_PATTERNS))"
  unfolding match_category_def title_text_def include_count_def exclude_count_def od_title_def
    evaluation_title_def Let_def
  by simp

lemma scenario_training:
  "match_category basic_lib (Some [47532, 45908, 49901, 32, 50669, 47049, 44053, 54868, 32, 44368, 50977, 32, 50868, 50689, 32, 50857, 50669])
   = (HRD_TRAINING, 0.72,
      [Literal [44368, 50977], Literal [47532, 45908, 49901], Literal [50669, 47049]])"
  by (simp add: match_category_def py_strip_def basic_lib_def INCLUDE_PATTERNS_def
      EXCLUDE_PATTERNS_def re_search_def re_search_any_def pattern_here_def char_match_def
      OD_TERMS_def EVALUATION_TERMS_def boundary_def word_char_def first_char_def
      last_char_def Let_def)

lemma scenario_organization:
  "match_category basic_lib (Some [51312, 51649, 51652, 45800, 32, 48143, 32, 51312, 51649, 47928, 54868, 32, 44060, 49440, 32, 52968, 49444, 54021, 32, 50857, 50669])
   = (OD_ORGANIZATION, 0.84,
      [Literal [51312, 51649, 51652, 45800], Literal [51312, 51649, 47928, 54868],
       Literal [52968, 49444, 54021]])"
  by (simp add: match_category_def py_strip_def basic_lib_def INCLUDE_PATTERNS_def
      EXCLUDE_PATTERNS_def re_search_def re_search_any_def pattern_here_def char_match_def
      OD_TERMS_def EVALUATION_TERMS_def boundary_def word_char_def first_char_def
      last_char_def Let_def)

text \<open>
  C2. The classifier is a function of the title (given the character tables), so it is
  total and deterministic, and its strength lies between 0 and 1. A title that is empty
  or blank is unassigned with strength 0 and no hits; a title with no include hit is not
  applicable with strength 0; a title with an exclude hit and no more include hits than
  exclude hits is on hold with strength 0.45; of the others, a title with an
  organizational term is OD/Organization with 0.84, else one with an evaluation term is
  Evaluation/System with 0.78, and any other is HRD/Training with 0.72.
\<close>

theorem match_category_algorithm:
  "(title_text L title = [] \<longrightarrow> match_category L title = (UNASSIGNED, 0, []))
   \<and> (title_text L title \<noteq> [] \<and> include_count L title = 0 \<longrightarrow>
        category_of (match_category L title) = NOT_APPLICABLE
        \<and> strength_of (match_category L title) = 0)
   \<and> (title_text L title \<noteq> [] \<and> 0 < include_count L title \<and> 0 < exclude_count L title
        \<and> include_count L title \<le> exclude_count L title \<longrightarrow>
        category_of (match_category L title) = HOLD
        \<and> strength_of (match_category L title) = 0.45)
   \<and> (title_text L title \<noteq> [] \<and> 0 < include_count L title
        \<and> \<not> (0 < exclude_count L title \<and> include_count L title \<le> exclude_count L title) \<longrightarrow>
        (od_title L title \<longrightarrow>
           category_of (match_category L title) = OD_ORGANIZATION
           \<and> strength_of (match_category L title) = 0.84)
        \<and> (\<not> od_title L title \<and> evaluation_title L title \<longrightarrow>
           category_of (match_category L title) = EVALUATION_SYSTEM
           \<and> strength_of (match_category L title) = 0.78)
        \<and> (\<not> od_title L title \<and> \<not> evaluation_title L title \<longrightarrow>
           category_of (match_category L title) = HRD_TRAINING
           \<and> strength_of (match_category L title) = 0.72))
   \<and> 0 \<le> strength_of (match_category L title) \<and> strength_of (match_category L title) \<le> 1"
  unfolding match_category_cases category_of_def strength_of_def by simp

text \<open>
  The theorem at the two titles of the specification's scenarios A and B: the training
  title hits three include patterns, no exclude pattern and neither list of terms; the
  title of the organizational diagnosis matches the organizational terms.
\<close>

theorem match_category_algorithm_witness:
  "title_text basic_lib (Some [47532, 45908, 49901, 32, 50669, 47049, 44053, 54868, 32, 44368, 50977, 32, 50868, 50689, 32, 50857, 50669]) \<noteq> []
   \<and> include_count basic_lib (Some [47532, 45908, 49901, 32, 50669, 47049, 44053, 54868, 32, 44368, 50977, 32, 50868, 50689, 32, 50857, 50669]) = 3
   \<and> exclude_count basic_lib (Some [47532, 45908, 49901, 32, 50669, 47049, 44053, 54868, 32, 44368, 50977, 32, 50868, 50689, 32, 50857, 50669]) = 0
   \<and> \<not> od_title basic_lib (Some [47532, 45908, 49901, 32, 50669, 47049, 44053, 54868, 32, 44368, 50977, 32, 50868, 50689, 32, 50857, 50669])
   \<and> \<not> evaluation_title basic_lib (Some [47532, 45908, 49901, 32, 50669, 47049, 44053, 54868, 32, 44368, 50977, 32, 50868, 50689, 32, 50857, 50669])
   \<and> category_of (match_category basic_lib (Some [47532, 45908, 49901, 32, 50669, 47049, 44053, 54868, 32, 44368, 50977, 32, 50868, 50689, 32, 50857, 50669])) = HRD_TRAINING
   \<and> strength_of (match_category basic_lib (Some [47532, 45908, 49901, 32, 50669, 47049, 44053, 54868, 32, 44368, 50977, 32, 50868, 50689, 32, 50857, 50669])) = 0.72
   \<and> od_title basic_lib (Some [51312, 51649, 51652, 45800, 32, 48143, 32, 51312, 51649, 47928, 54868, 32, 44060, 49440, 32, 52968, 49444, 54021, 32, 50857, 50669])
   \<and> category_of (match_category basic_lib (Some [51312, 51649, 51652, 45800, 32, 48143, 32, 51312, 51649, 47928, 54868, 32, 44060, 49440, 32, 52968, 49444, 54021, 32, 50857, 50669])) = OD_ORGANIZATION
   \<and> strength_of (match_category basic_lib (Some [51312, 51649, 51652, 45800, 32, 48143, 32, 51312, 51649, 47928, 54868, 32, 44060, 49440, 32, 52968, 49444, 54021, 32, 50857, 50669])) = 0.84"
proof -
  have a: "title_text basic_lib (Some [47532, 45908, 49901, 32, 50669, 47049, 44053, 54868, 32, 44368, 50977, 32, 50868, 50689, 32, 50857, 50669]) \<noteq> []
   \<and> include_count basic_lib (Some [47532, 45908, 49901, 32, 50669, 47049, 44053, 54868, 32, 44368, 50977, 32, 50868, 50689, 32, 50857, 50669]) = 3
   \<and> exclude_count basic_lib (Some [47532, 45908, 49901, 32, 50669, 47049, 44053, 54868, 32, 44368, 50977, 32, 50868, 50689, 32, 50857, 50669]) = 0
   \<and> \<not> od_title basic_lib (Some [47532, 45908, 49901, 32, 50669, 47049, 44053, 54868, 32, 44368, 50977, 32, 50868, 50689, 32, 50857, 50669])
   \<and> \<not> evaluation_title basic_lib (Some [47532, 45908, 49901, 32, 50669, 47049, 44053, 54868, 32, 44368, 50977, 32, 50868, 50689, 32, 50857, 50669])"
    by (simp add: title_text_def include_count_def exclude_count_def od_title_def
      evaluation_title_def match_category_def py_strip_def basic_lib_def INCLUDE_PATTERNS_def
      EXCLUDE_PATTERNS_def re_search_def re_search_any_def pattern_here_def char_match_def
      OD_TERMS_def EVALUATION_TERMS_def boundary_def word_char_def first_char_def
      last_char_def Let_def)
  have b: "title_text basic_lib (Some [51312, 51649, 51652, 45800, 32, 48143, 32, 51312, 51649, 47928, 54868, 32, 44060, 49440, 32, 52968, 49444, 54021, 32, 50857, 50669]) \<noteq> []
   \<and> include_count basic_lib (Some [51312, 51649, 51652, 45800, 32, 48143, 32, 51312, 51649, 47928, 54868, 32, 44060, 49440, 32, 52968, 49444, 54021, 32, 50857, 50669]) = 3
   \<and> exclude_count basic_lib (Some [51312, 51649, 51652, 45800, 32, 48143, 32, 51312, 51649, 47928, 54868, 32, 44060, 49440, 32, 52968, 49444, 54021, 32, 50857, 50669]) = 0
   \<and> od_title basic_lib (Some [51312, 51649, 51652, 45800, 32, 48143, 32, 51312, 51649, 47928, 54868, 32, 44060, 49440, 32, 52968, 49444, 54021, 32, 50857, 50669])"
    by (simp add: title_text_def include_count_def exclude_count_def od_title_def
      evaluation_title_def match_category_def py_strip_def basic_lib_def INCLUDE_PATTERNS_def
      EXCLUDE_PATTERNS_def re_search_def re_search_any_def pattern_here_def char_match_def
      OD_TERMS_def EVALUATION_TERMS_def boundary_def word_char_def first_char_def
      last_char_def Let_def)
  from a match_category_algorithm[of basic_lib "Some [47532, 45908, 49901, 32, 50669, 47049, 44053, 54868, 32, 44368, 50977, 32, 50868, 50689, 32, 50857, 50669]"]
  have "category_of (match_category basic_lib (Some [47532, 45908, 49901, 32, 50669, 47049, 44053, 54868, 32, 44368, 50977, 32, 50868, 50689, 32, 50857, 50669])) = HRD_TRAINING
   \<and> strength_of (match_category basic_lib (Some [47532, 45908, 49901, 32, 50669, 47049, 44053, 54868, 32, 44368, 50977, 32, 50868, 50689, 32, 50857, 50669])) = 0.72"
    by simp
  moreover from b match_category_algorithm[of basic_lib "Some [51312, 51649, 51652, 45800, 32, 48143, 32, 51312, 51649, 47928, 54868, 32, 44060, 49440, 32, 52968, 49444, 54021, 32, 50857, 50669]"]
  have "category_of (match_category basic_lib (Some [51312, 51649, 51652, 45800, 32, 48143, 32, 51312, 51649, 47928, 54868, 32, 44060, 49440, 32, 52968, 49444, 54021, 32, 50857, 50669])) = OD_ORGANIZATION
   \<and> strength_of (match_category basic_lib (Some [51312, 51649, 51652, 45800, 32, 48143, 32, 51312, 51649, 47928, 54868, 32, 44060, 49440, 32, 52968, 49444, 54021, 32, 50857, 50669])) = 0.84"
    by simp
  ultimately show ?thesis using a b by blast
qed

section \<open>Properties of the recurrence detector and the ranker\<close>

lemma dict_get_dict_set:
  "dict_get (dict_set d k v) k' dflt = (if k' = k then v else dict_get d k' dflt)"
  by (induction d) auto

lemma tally_snoc:
  "tally f (xs @ [x]) = dict_set (tally f xs) (f x) (dict_get (tally f xs) (f x) 0 + 1)"
  by (simp add: tally_def)

lemma dict_get_tally: "dict_get (tally f xs) k 0 = length (filter (\<lambda>x. f x = k) xs)"
proof (induction xs arbitrary: k rule: rev_induct)
  case Nil
  show ?case by (simp add: tally_def)
next
  case (snoc x xs)
  show ?case by (simp add: tally_snoc dict_get_dict_set snoc.IH)
qed






lemma build_step_skip:
  assumes "\<not> is_lead L n"
  shows "build_step L K R as_of (leads, by_cat, by_wt) n
         = (leads, by_cat, dict_set by_wt (work_type n) (dict_get by_wt (work_type n) 0 + 1))"
proof -
  obtain cat strength hits where m: "match_category L (Some (notice_title n)) = (cat, strength, hits)"
    by (cases "match_category L (Some (notice_title n))")
  with assms have "cat \<in> set NON_LEAD_CATEGORIES"
    by (simp add: is_lead_def notice_category_def)
  then show ?thesis by (simp add: build_step_def m Let_def)
qed

lemma build_step_lead:
  assumes "is_lead L n"
  shows "\<exists>lead. build_step L K R as_of (leads, by_cat, by_wt) n
         = (leads @ [lead],
            dict_set by_cat (notice_category L n) (dict_get by_cat (notice_category L n) 0 + 1),
            dict_set by_wt (work_type n) (dict_get by_wt (work_type n) 0 + 1))"
proof -
  obtain cat strength hits where m: "match_category L (Some (notice_title n)) = (cat, strength, hits)"
    by (cases "match_category L (Some (notice_title n))")
  with assms have c: "cat \<notin> set NON_LEAD_CATEGORIES" and n: "notice_category L n = cat"
    by (simp_all add: is_lead_def notice_category_def)
  show ?thesis using c by (simp add: build_step_def m n Let_def)
qed

lemma build_fold_state:
  "\<exists>leads. foldl (build_step L K R as_of) ([], [], []) ns
     = (leads, tally (notice_category L) (filter (is_lead L) ns), tally work_type ns)
     \<and> length leads = length (filter (is_lead L) ns)"
proof (induction ns rule: rev_induct)
  case Nil
  show ?case by (simp add: tally_def)
next
  case (snoc n ns)
  then obtain leads where st: "foldl (build_step L K R as_of) ([], [], []) ns
     = (leads, tally (notice_category L) (filter (is_lead L) ns), tally work_type ns)"
    and len: "length leads = length (filter (is_lead L) ns)" by blast
  show ?case
  proof (cases "is_lead L n")
    case True
    from build_step_lead[OF True, of K R as_of leads
        "tally (notice_category L) (filter (is_lead L) ns)" "tally work_type ns"]
    obtain lead where "build_step L K R as_of
        (leads, tally (notice_category L) (filter (is_lead L) ns), tally work_type ns) n
         = (leads @ [lead],
            tally (notice_category L) (filter (is_lead L) ns @ [n]),
            tally work_type (ns @ [n]))"
      by (auto simp: tally_snoc)
    with True st len show ?thesis by simp
  next
    case False
    from build_step_skip[OF False, of K R as_of leads
        "tally (notice_category L) (filter (is_lead L) ns)" "tally work_type ns"]
    have "build_step L K R as_of
        (leads, tally (notice_category L) (filter (is_lead L) ns), tally work_type ns) n
         = (leads, tally (notice_category L) (filter (is_lead L) ns), tally work_type (ns @ [n]))"
      by (simp add: tally_snoc)
    with False st len show ?thesis by simp
  qed
qed

lemma build_loop_state:
  "build_loop L K ns as_of
     = (all_leads L K ns as_of, tally (notice_category L) (filter (is_lead L) ns), tally work_type ns)
   \<and> length (all_leads L K ns as_of) = length (filter (is_lead L) ns)"
  using build_fold_state[of L K "find_repeated_titles L ns" as_of ns]
  by (auto simp: build_loop_def all_leads_def)

lemma build_leads_eq:
  "build_leads L K ns as_of top_n
     = (slice_to (ranked_leads L K ns as_of) top_n,
        \<lparr>total_notices = length ns,
         matched_notices = length (filter (is_lead L) ns),
         by_category = tally (notice_category L) (filter (is_lead L) ns),
         by_work_type = tally work_type ns\<rparr>)"
proof -
  have st: "build_loop L K ns as_of
     = (all_leads L K ns as_of, tally (notice_category L) (filter (is_lead L) ns), tally work_type ns)"
    and len: "length (all_leads L K ns as_of) = length (filter (is_lead L) ns)"
    using build_loop_state by blast+
  show ?thesis
    by (simp add: build_leads_def st ranked_leads_def Let_def len)
qed

lemma summary_counts:
  "total_notices (snd (build_leads L K ns as_of top_n)) = length ns
   \<and> matched_notices (snd (build_leads L K ns as_of top_n)) = length (filter (is_lead L) ns)
   \<and> dict_get (by_work_type (snd (build_leads L K ns as_of top_n))) w 0
       = length (filter (\<lambda>n. work_type n = w) ns)
   \<and> dict_get (by_category (snd (build_leads L K ns as_of top_n))) c 0
       = length (filter (\<lambda>n. is_lead L n \<and> notice_category L n = c) ns)"
  by (simp add: build_leads_eq dict_get_tally conj_commute)

lemma summary_independent:
  "snd (build_leads L K ns as_of top_n) = snd (build_leads L K ns as_of top_n')"
  by (simp add: build_leads_eq)

lemma top_zero: "fst (build_leads L K ns as_of 0) = []"
  by (simp add: build_leads_eq slice_to_def)

lemma ranked_sorted:
  "sorted_wrt (\<lambda>a b. lead_urgency_score a \<ge> lead_urgency_score b) (ranked_leads L K ns as_of)"
proof -
  have "sorted (map (\<lambda>x. - lead_urgency_score x) (ranked_leads L K ns as_of))"
    unfolding ranked_leads_def by (rule sorted_sort_key)
  then show ?thesis by (simp add: sorted_map)
qed

lemma ranked_stable:
  "filter (\<lambda>x. lead_urgency_score x = k) (ranked_leads L K ns as_of)
   = filter (\<lambda>x. lead_urgency_score x = k) (all_leads L K ns as_of)"
proof -
  have "filter (\<lambda>x. - lead_urgency_score x = - k) (ranked_leads L K ns as_of)
   = filter (\<lambda>x. - lead_urgency_score x = - k) (all_leads L K ns as_of)"
    unfolding ranked_leads_def by (rule sort_key_stable)
  then show ?thesis by simp
qed

lemma filter_take_prefix: "\<exists>r. filter P xs = filter P (take n xs) @ r"
proof -
  have "filter P xs = filter P (take n xs @ drop n xs)" by simp
  also have "\<dots> = filter P (take n xs) @ filter P (drop n xs)" by (rule filter_append)
  finally show ?thesis by blast
qed

lemma ranking_facts:
  assumes "0 \<le> top_n"
  shows "(\<exists>rest. ranked_leads L K ns as_of = fst (build_leads L K ns as_of top_n) @ rest)
   \<and> length (fst (build_leads L K ns as_of top_n)) \<le> nat top_n
   \<and> sorted_wrt (\<lambda>a b. lead_urgency_score a \<ge> lead_urgency_score b)
        (fst (build_leads L K ns as_of top_n))
   \<and> (\<forall>k. filter (\<lambda>x. lead_urgency_score x = k) (ranked_leads L K ns as_of)
           = filter (\<lambda>x. lead_urgency_score x = k) (all_leads L K ns as_of))
   \<and> (\<forall>k. \<exists>rest. filter (\<lambda>x. lead_urgency_score x = k) (all_leads L K ns as_of)
           = filter (\<lambda>x. lead_urgency_score x = k) (fst (build_leads L K ns as_of top_n)) @ rest)"
proof -
  let ?r = "ranked_leads L K ns as_of"
  have sel: "fst (build_leads L K ns as_of top_n) = take (nat top_n) ?r"
    using assms by (simp add: build_leads_eq slice_to_def)
  have p: "\<exists>rest. ?r = take (nat top_n) ?r @ rest"
    by (metis append_take_drop_id)
  have l: "length (take (nat top_n) ?r) \<le> nat top_n" by simp
  have s: "sorted_wrt (\<lambda>a b. lead_urgency_score a \<ge> lead_urgency_score b) (take (nat top_n) ?r)"
    using ranked_sorted[of L K ns as_of] by (rule sorted_wrt_take)
  have st: "\<forall>k. \<exists>rest. filter (\<lambda>x. lead_urgency_score x = k) (all_leads L K ns as_of)
           = filter (\<lambda>x. lead_urgency_score x = k) (take (nat top_n) ?r) @ rest"
  proof
    fix k
    have "\<exists>rest. filter (\<lambda>x. lead_urgency_score x = k) ?r
           = filter (\<lambda>x. lead_urgency_score x = k) (take (nat top_n) ?r) @ rest"
      by (rule filter_take_prefix)
    then show "\<exists>rest. filter (\<lambda>x. lead_urgency_score x = k) (all_leads L K ns as_of)
           = filter (\<lambda>x. lead_urgency_score x = k) (take (nat top_n) ?r) @ rest"
      by (simp only: ranked_stable)
  qed
  show ?thesis
    unfolding sel using p l s st ranked_stable by blast
qed

lemma sample_titles:
  "match_category basic_lib (Some [44368, 50977]) = (HRD_TRAINING, 0.72, [Literal [44368, 50977]])"
  "match_category basic_lib (Some [44368, 50977, 32, 50, 48, 50, 53])
     = (HRD_TRAINING, 0.72, [Literal [44368, 50977]])"
  "match_category basic_lib (Some [46020, 47196]) = (NOT_APPLICABLE, 0, [])"
  by (simp_all add: match_category_def py_strip_def basic_lib_def INCLUDE_PATTERNS_def
      EXCLUDE_PATTERNS_def re_search_def re_search_any_def pattern_here_def char_match_def
      OD_TERMS_def EVALUATION_TERMS_def boundary_def word_char_def first_char_def
      last_char_def Let_def)

lemma sample_normalized:
  "normalize_title basic_lib [44368, 50977] = [44368, 50977]"
  "normalize_title basic_lib [44368, 50977, 32, 50, 48, 50, 53] = [44368, 50977]"
  "normalize_title basic_lib [46020, 47196] = [46020, 47196]"
  by (simp_all add: normalize_title_def basic_lib_def ordinal_here_def py_strip_def)

lemma sample_counts:
  "foldl (count_step basic_lib) [] sample_batch
   = [(([83], [44368, 50977]), 2), (([84], [46020, 47196]), 1)]"
  by (simp add: sample_batch_def count_step_def mk_RawNotice_def sample_normalized Let_def)

lemma sample_repeated:
  "find_repeated_titles basic_lib sample_batch = {([83], [44368, 50977])}"
  unfolding find_repeated_titles_def sample_counts Let_def
  by simp

lemma sample_categories:
  "NOT_APPLICABLE \<in> set NON_LEAD_CATEGORIES" "HRD_TRAINING \<notin> set NON_LEAD_CATEGORIES"
  by (simp_all add: NON_LEAD_CATEGORIES_def NOT_APPLICABLE_def HRD_TRAINING_def HOLD_def
      UNASSIGNED_def)

lemma sample_scores:
  "urgency_score (dt 2026 1 1 9 30) None (Some 99) True (3 / 5) (4 / 5) = 55"
  "urgency_score (dt 2026 1 1 9 30) None None True (3 / 5) (4 / 5) = 62"
  by (simp_all add: urgency_score_def raw_score_def deadline_score_def budget_score_def
      log10_100 py_round_def Let_def)

lemma sample_loop:
  "map lead_bid_ntce_no (all_leads basic_lib sample_clock sample_batch as_of) = [[50], [49]]
   \<and> map lead_urgency_score (all_leads basic_lib sample_clock sample_batch as_of) = [55, 62]
   \<and> snd (build_loop basic_lib sample_clock sample_batch as_of)
       = ([(HRD_TRAINING, 2)], [([85], 2), ([87], 1)])"
  unfolding all_leads_def build_loop_def sample_repeated
  by (simp add: sample_batch_def build_step_def mk_RawNotice_def sample_titles
      sample_categories sample_normalized parse_datetime_guess_def sample_clock_def
      sample_scores Let_def)


lemma sample_leads:
  "is_lead basic_lib (sample_batch ! 0)" "is_lead basic_lib (sample_batch ! 1)"
  "\<not> is_lead basic_lib (sample_batch ! 2)"
  "filter (is_lead basic_lib) sample_batch = [sample_batch ! 0, sample_batch ! 1]"
  by (simp_all add: is_lead_def notice_category_def sample_batch_def mk_RawNotice_def
      sample_titles sample_categories)

text \<open>
  C5. The statistics of \<open>build_leads\<close> are taken over all notices before the
  truncation: the total is the number of notices, the matched count the number of notices
  whose category is a positive match, the counter by work type counts every notice and
  the counter by category every positive match; the statistics are the same for every
  top-N, and with N = 0 the list of leads is empty.
\<close>

theorem summary_stats_over_full_batch:
  "total_notices (snd (build_leads L K ns as_of top_n)) = length ns
   \<and> matched_notices (snd (build_leads L K ns as_of top_n)) = length (filter (is_lead L) ns)
   \<and> (\<forall>w. dict_get (by_work_type (snd (build_leads L K ns as_of top_n))) w 0
          = length (filter (\<lambda>n. work_type n = w) ns))
   \<and> (\<forall>c. dict_get (by_category (snd (build_leads L K ns as_of top_n))) c 0
          = length (filter (\<lambda>n. is_lead L n \<and> notice_category L n = c) ns))
   \<and> (\<forall>top_n'. snd (build_leads L K ns as_of top_n') = snd (build_leads L K ns as_of top_n))
   \<and> fst (build_leads L K ns as_of 0) = []"
  using summary_counts[of L K ns as_of top_n] summary_independent[of L K ns as_of _ top_n]
    top_zero[of L K ns as_of]
  by blast

text \<open>
  The theorem at a batch of three notices, two training notices of one agency and a road
  notice, with top-N 1 and 0.
\<close>

theorem summary_stats_over_full_batch_witness:
  "total_notices (snd (build_leads basic_lib sample_clock sample_batch (dt 2026 1 1 0 0) 1)) = 3
   \<and> matched_notices (snd (build_leads basic_lib sample_clock sample_batch (dt 2026 1 1 0 0) 1)) = 2
   \<and> dict_get (by_work_type
         (snd (build_leads basic_lib sample_clock sample_batch (dt 2026 1 1 0 0) 1))) [85] 0 = 2
   \<and> snd (build_leads basic_lib sample_clock sample_batch (dt 2026 1 1 0 0) 0)
       = snd (build_leads basic_lib sample_clock sample_batch (dt 2026 1 1 0 0) 1)
   \<and> fst (build_leads basic_lib sample_clock sample_batch (dt 2026 1 1 0 0) 0) = []"
proof -
  have w: "length (filter (\<lambda>n. work_type n = [85]) sample_batch) = 2"
    by (simp add: sample_batch_def mk_RawNotice_def)
  have l: "length sample_batch = 3" by (simp add: sample_batch_def)
  show ?thesis
    using summary_stats_over_full_batch
      [of basic_lib sample_clock sample_batch "dt 2026 1 1 0 0" 1] w l
    by (simp add: sample_leads(4))
qed

text \<open>
  C6. For every list of notices and every N that is not negative, the leads returned
  by \<open>build_leads\<close> are a prefix of the full ranking, at most N of them, in descending
  order of score; the full ranking keeps the leads of equal score in the order of their
  construction, and so does the returned list.
\<close>

theorem leads_ranked_stably_and_truncated:
  assumes "0 \<le> top_n"
  shows "(\<exists>rest. ranked_leads L K ns as_of = fst (build_leads L K ns as_of top_n) @ rest)
   \<and> length (fst (build_leads L K ns as_of top_n)) \<le> nat top_n
   \<and> sorted_wrt (\<lambda>a b. lead_urgency_score a \<ge> lead_urgency_score b)
        (fst (build_leads L K ns as_of top_n))
   \<and> (\<forall>k. filter (\<lambda>x. lead_urgency_score x = k) (ranked_leads L K ns as_of)
           = filter (\<lambda>x. lead_urgency_score x = k) (all_leads L K ns as_of))
   \<and> (\<forall>k. \<exists>rest. filter (\<lambda>x. lead_urgency_score x = k) (all_leads L K ns as_of)
           = filter (\<lambda>x. lead_urgency_score x = k) (fst (build_leads L K ns as_of top_n)) @ rest)"
  using assms by (rule ranking_facts)

text \<open>
  The theorem at the batch of three notices and N = 1: the lead built second has the
  higher score and is the one returned.
\<close>

theorem leads_ranked_stably_and_truncated_witness:
  "(0 :: int) \<le> 1
   \<and> map lead_urgency_score (all_leads basic_lib sample_clock sample_batch (dt 2026 1 1 0 0))
       = [55, 62]
   \<and> map lead_urgency_score (ranked_leads basic_lib sample_clock sample_batch (dt 2026 1 1 0 0))
       = [62, 55]
   \<and> map lead_urgency_score
         (fst (build_leads basic_lib sample_clock sample_batch (dt 2026 1 1 0 0) 1)) = [62]
   \<and> length (fst (build_leads basic_lib sample_clock sample_batch (dt 2026 1 1 0 0) 1)) \<le> nat 1
   \<and> (\<exists>rest. ranked_leads basic_lib sample_clock sample_batch (dt 2026 1 1 0 0)
          = fst (build_leads basic_lib sample_clock sample_batch (dt 2026 1 1 0 0) 1) @ rest)"
proof -
  let ?all = "all_leads basic_lib sample_clock sample_batch (dt 2026 1 1 0 0)"
  have m: "map lead_urgency_score ?all = [55, 62]" using sample_loop by blast
  then obtain a b where ab: "?all = [a, b]" "lead_urgency_score a = 55" "lead_urgency_score b = 62"
    by auto
  have r: "ranked_leads basic_lib sample_clock sample_batch (dt 2026 1 1 0 0) = [b, a]"
    by (simp add: ranked_leads_def ab)
  have s: "fst (build_leads basic_lib sample_clock sample_batch (dt 2026 1 1 0 0) 1) = [b]"
    by (simp add: build_leads_eq slice_to_def r)
  show ?thesis
    using leads_ranked_stably_and_truncated
      [of 1 basic_lib sample_clock sample_batch "dt 2026 1 1 0 0"] m
    by (simp add: r s ab)
qed



section \<open>Properties of the window planner\<close>

lemma dt_le_refl: "dt_le a a"
  by (simp add: dt_le_def)

lemma dt_less_le_trans: "dt_less a b \<Longrightarrow> dt_le b c \<Longrightarrow> dt_less a c"
  unfolding dt_less_def dt_le_def by (rule less_le_trans)

lemma dt_not_le: "\<not> dt_le a b \<Longrightarrow> dt_less b a"
  unfolding dt_less_def dt_le_def by simp

lemma dt_less_imp_le: "dt_less a b \<Longrightarrow> dt_le a b"
  unfolding dt_less_def dt_le_def by simp

lemma py_min_le_left: "dt_le (py_min a b) a"
  unfolding py_min_def dt_less_def dt_le_def by (simp add: less_imp_le)

lemma py_min_le_right: "dt_le (py_min a b) b"
  unfolding py_min_def dt_less_def dt_le_def by (simp add: not_less)

lemma py_min_right: "dt_less b a \<Longrightarrow> py_min a b = b"
  by (simp add: py_min_def)

lemma dt_le_date:
  assumes "dt_le a b"
  shows "year a < year b \<or> (year a = year b \<and> month a < month b)
         \<or> (year a = year b \<and> month a = month b \<and> day a \<le> day b)"
  using assms
  by (auto simp: dt_le_def dt_tuple_def less_eq_prod_def less_prod_def)

lemma days_in_month_bounds: "28 \<le> days_in_month y m \<and> days_in_month y m \<le> 31"
  by (simp add: days_in_month_def)

lemma days_in_december: "days_in_month y 12 = 31"
  by (simp add: days_in_month_def)

lemma plus_one_day_less: "plus_one_day c = Inr nxt \<Longrightarrow> dt_less c nxt"
  by (auto simp: plus_one_day_def dt_less_def dt_tuple_def less_prod_def less_eq_prod_def
      split: if_splits)

lemma plus_one_day_valid:
  "valid_datetime c \<Longrightarrow> plus_one_day c = Inr nxt \<Longrightarrow>
   valid_datetime nxt \<and> (1 < day nxt \<or> 1 < month nxt \<or> 1 < year nxt)"
  using days_in_month_bounds[of "year c" "month c + 1"] days_in_month_bounds[of "year c + 1" 1]
  by (auto simp: plus_one_day_def valid_datetime_def split: if_splits)

lemma plus_one_day_ok:
  assumes "valid_datetime c" and "valid_datetime e" and "dt_le c e"
    and "\<not> (year e = 9999 \<and> month e = 12 \<and> day e = 31)"
  shows "\<exists>nxt. plus_one_day c = Inr nxt"
proof (rule ccontr)
  assume "\<not> (\<exists>nxt. plus_one_day c = Inr nxt)"
  then have o: "\<not> day c < days_in_month (year c) (month c)" "\<not> month c < 12" "\<not> year c < 9999"
    by (auto simp: plus_one_day_def split: if_splits)
  with assms(1) have c: "year c = 9999" "month c = 12" "day c = 31"
    by (auto simp: valid_datetime_def days_in_december)
  from dt_le_date[OF assms(3)] c assms(2) have "year e = 9999 \<and> month e = 12 \<and> day e = 31"
    by (auto simp: valid_datetime_def days_in_december)
  with assms(4) show False by simp
qed

lemma month_start_less:
  "mk_date y m 1 = Inr nxt \<Longrightarrow> year c < y \<or> (year c = y \<and> month c < m) \<Longrightarrow> dt_less c nxt"
  by (auto simp: mk_date_def dt_def dt_less_def dt_tuple_def less_prod_def less_eq_prod_def
      split: if_splits)

lemma mk_date_valid:
  "mk_date y m 1 = Inr nxt \<Longrightarrow> valid_datetime nxt \<and> year nxt = y \<and> month nxt = m"
  by (auto simp: mk_date_def dt_def valid_datetime_def split: if_splits)

lemma next_month_ok:
  assumes "valid_datetime c" and "valid_datetime e" and "dt_le c e"
    and "\<not> (year e = 9999 \<and> month e = 12)"
  shows "\<exists>nxt. next_cursor MONTHLY c = Inr nxt"
proof (cases "month c = 12")
  case True
  from dt_le_date[OF assms(3)] True assms(2,4) have "year c < 9999"
    by (auto simp: valid_datetime_def)
  with assms(1) True show ?thesis
    using days_in_month_bounds[of "year c + 1" 1]
    by (simp add: next_cursor_def mk_date_def valid_datetime_def)
next
  case False
  with assms(1) show ?thesis
    using days_in_month_bounds[of "year c" "month c + 1"]
    by (simp add: next_cursor_def mk_date_def valid_datetime_def)
qed

lemma next_cursor_ok:
  assumes "valid_datetime c" and "valid_datetime e" and "dt_le c e" and "can_advance mode e"
  shows "\<exists>nxt. next_cursor mode c = Inr nxt"
proof (cases "mode = MONTHLY")
  case True
  with assms show ?thesis using next_month_ok[of c e] by (simp add: can_advance_def)
next
  case False
  with assms show ?thesis using plus_one_day_ok[of c e]
    by (simp add: can_advance_def next_cursor_def)
qed

lemma next_cursor_facts:
  assumes "valid_datetime c" and "next_cursor mode c = Inr nxt"
  shows "valid_datetime nxt \<and> dt_less c nxt \<and> (1 < day nxt \<or> 1 < month nxt \<or> 1 < year nxt)"
proof (cases "mode = MONTHLY")
  case False
  with assms(2) have p: "plus_one_day c = Inr nxt" by (simp add: next_cursor_def)
  from plus_one_day_valid[OF assms(1) p] plus_one_day_less[OF p] show ?thesis by blast
next
  case True
  show ?thesis
  proof (cases "month c = 12")
    case True
    with \<open>mode = MONTHLY\<close> assms(2) have m: "mk_date (year c + 1) 1 1 = Inr nxt"
      by (simp add: next_cursor_def)
    from mk_date_valid[OF m] month_start_less[OF m, of c] assms(1) show ?thesis
      by (auto simp: valid_datetime_def)
  next
    case False
    with \<open>mode = MONTHLY\<close> assms(2) have m: "mk_date (year c) (month c + 1) 1 = Inr nxt"
      by (simp add: next_cursor_def)
    from mk_date_valid[OF m] month_start_less[OF m, of c] assms(1) show ?thesis
      by (auto simp: valid_datetime_def)
  qed
qed

lemma minus_one_minute_ok:
  "1 < day n \<or> 1 < month n \<or> 1 < year n \<Longrightarrow> \<exists>b. minus_one_minute n = Inr b"
  by (auto simp: minus_one_minute_def)

lemma minus_one_minute_less: "minus_one_minute n = Inr b \<Longrightarrow> dt_less b n"
  by (auto simp: minus_one_minute_def dt_less_def dt_tuple_def less_prod_def less_eq_prod_def
      split: if_splits)

lemma iter_windows_done: "\<not> dt_le c e \<Longrightarrow> iter_windows c e mode = ([], None)"
  by (simp add: iter_windows.simps[of c e mode])

lemma iter_windows_step:
  "dt_le c e \<Longrightarrow> next_cursor mode c = Inr nxt \<Longrightarrow> minus_one_minute nxt = Inr b \<Longrightarrow>
   iter_windows c e mode
     = ((c, py_min e b) # fst (iter_windows nxt e mode), snd (iter_windows nxt e mode))"
  by (simp add: iter_windows.simps[of c e mode] Let_def)

lemma iter_windows_planned:
  "valid_datetime c \<longrightarrow> valid_datetime e \<longrightarrow> can_advance mode e \<longrightarrow> planned c e mode"
proof (induction c e mode rule: iter_windows.induct)
  case (1 cursor end_dt mode)
  show ?case
  proof (intro impI)
    assume vc: "valid_datetime cursor" and ve: "valid_datetime end_dt"
      and ca: "can_advance mode end_dt"
    show "planned cursor end_dt mode"
    proof (cases "dt_le cursor end_dt")
      case False
      then show ?thesis by (simp add: planned_def iter_windows_done)
    next
      case True
      from next_cursor_ok[OF vc ve True ca] obtain nxt where n: "next_cursor mode cursor = Inr nxt"
        by blast
      from next_cursor_facts[OF vc n] have vn: "valid_datetime nxt" and ln: "dt_less cursor nxt"
        and an: "1 < day nxt \<or> 1 < month nxt \<or> 1 < year nxt" by blast+
      from minus_one_minute_ok[OF an] obtain b where b: "minus_one_minute nxt = Inr b" by blast
      have lb: "dt_less b nxt" using b by (rule minus_one_minute_less)
      have ih: "planned nxt end_dt mode"
        using "1.IH"[OF True n b refl] vn ve ca by blast
      let ?rest = "fst (iter_windows nxt end_dt mode)"
      have eq: "iter_windows cursor end_dt mode
          = ((cursor, py_min end_dt b) # ?rest, snd (iter_windows nxt end_dt mode))"
        using True n b by (rule iter_windows_step)
      have w: "clipped_step mode end_dt (cursor, py_min end_dt b)"
        by (simp add: clipped_step_def n b py_min_le_right)
      have adj: "adjacent mode ((cursor, py_min end_dt b) # ?rest)"
      proof (cases ?rest)
        case Nil
        then show ?thesis by simp
      next
        case (Cons w2 ws)
        with ih have le: "dt_le nxt end_dt" and h: "fst w2 = nxt" and a: "adjacent mode (w2 # ws)"
          by (auto simp: planned_def Let_def)
        from lb le have "dt_less b end_dt" by (rule dt_less_le_trans)
        then have "py_min end_dt b = b" by (rule py_min_right)
        with Cons h a n b show ?thesis by simp
      qed
      have lst: "\<exists>nx. next_cursor mode (fst (last ((cursor, py_min end_dt b) # ?rest))) = Inr nx
                 \<and> dt_less end_dt nx"
      proof (cases ?rest)
        case Nil
        with ih have "\<not> dt_le nxt end_dt" by (auto simp: planned_def Let_def)
        then have "dt_less end_dt nxt" by (rule dt_not_le)
        with Nil n show ?thesis by simp
      next
        case (Cons w2 ws)
        with ih show ?thesis by (auto simp: planned_def Let_def)
      qed
      from ih have r: "snd (iter_windows nxt end_dt mode) = None"
        and all: "\<forall>w \<in> set ?rest. dt_le (fst w) end_dt \<and> dt_le (snd w) end_dt
                    \<and> clipped_step mode end_dt w"
        by (auto simp: planned_def Let_def)
      show ?thesis
        unfolding planned_def Let_def eq
        using True r all w adj lst py_min_le_left[of end_dt b]
        by simp
    qed
  qed
qed

lemma next_month_value:
  "next_cursor MONTHLY c = Inr nxt \<Longrightarrow>
   nxt = (if month c = 12 then dt (year c + 1) 1 1 0 0 else dt (year c) (month c + 1) 1 0 0)"
  by (auto simp: next_cursor_def mk_date_def split: if_splits)

lemma clipped_step_next:
  "clipped_step mode e w \<Longrightarrow> \<exists>nxt. next_cursor mode (fst w) = Inr nxt"
  by (auto simp: clipped_step_def split: sum.splits)

lemma sample_monthly_plan:
  "iter_windows (dt 2025 11 15 8 30) (dt 2026 1 10 0 0) MONTHLY
   = ([(dt 2025 11 15 8 30, dt 2025 11 30 23 59), (dt 2025 12 1 0 0, dt 2025 12 31 23 59),
       (dt 2026 1 1 0 0, dt 2026 1 10 0 0)], None)"
  by (simp add: next_cursor_def mk_date_def plus_one_day_def minus_one_minute_def py_min_def
      dt_le_def dt_less_def dt_tuple_def dt_def DAILY_def MONTHLY_def days_in_month_def
      is_leap_def Let_def
      iter_windows.simps[of "\<lparr>year = y, month = m, day = d, hour = h, minute = mi,
        second = s, microsecond = u\<rparr>" for y m d h mi s u])

lemma sample_daily_plan:
  "iter_windows (dt 2026 1 30 0 0) (dt 2026 2 1 12 0) DAILY
   = ([(dt 2026 1 30 0 0, dt 2026 1 30 23 59), (dt 2026 1 31 0 0, dt 2026 1 31 23 59),
       (dt 2026 2 1 0 0, dt 2026 2 1 12 0)], None)"
  by (simp add: next_cursor_def mk_date_def plus_one_day_def minus_one_minute_def py_min_def
      dt_le_def dt_less_def dt_tuple_def dt_def DAILY_def MONTHLY_def days_in_month_def
      is_leap_def Let_def
      iter_windows.simps[of "\<lparr>year = y, month = m, day = d, hour = h, minute = mi,
        second = s, microsecond = u\<rparr>" for y m d h mi s u])

text \<open>
  C7, as the specification states it, fails on the last day of the year 9999: for
  start = end = 9999-12-31 00:00 in daily mode the step to the next day raises
  \<open>OverflowError\<close> before the first window is yielded.
\<close>

theorem iter_windows_last_day_counterexample:
  "valid_datetime (dt 9999 12 31 0 0)
   \<and> dt_le (dt 9999 12 31 0 0) (dt 9999 12 31 0 0)
   \<and> iter_windows (dt 9999 12 31 0 0) (dt 9999 12 31 0 0) DAILY = ([], Some OverflowError)"
  by (simp add: valid_datetime_def next_cursor_def mk_date_def plus_one_day_def minus_one_minute_def py_min_def
      dt_le_def dt_less_def dt_tuple_def dt_def DAILY_def MONTHLY_def days_in_month_def
      is_leap_def Let_def
      iter_windows.simps[of "\<lparr>year = y, month = m, day = d, hour = h, minute = mi,
        second = s, microsecond = u\<rparr>" for y m d h mi s u])

text \<open>
  C7, amended. For every start and end with start \<le> end, and mode daily or monthly,
  such that the end is not on 9999-12-31 (daily) or in December 9999 (monthly), the
  planner yields, without raising, a finite and non-empty sequence of windows: the first
  starts at start; every window starts no later than the end and ends at the earlier of
  the end and one minute before its step, which is its start plus one day (daily) or the
  first instant of the next calendar month (monthly, January of the next year after
  December); the end of each window is one minute before the start of the next; no
  window ends after the end; and the step after the start of the last window is past the
  end.
\<close>

theorem iter_windows_plan:
  assumes "valid_datetime start" and "valid_datetime end_dt" and "dt_le start end_dt"
    and "mode = DAILY \<or> mode = MONTHLY" and "can_advance mode end_dt"
  shows "snd (iter_windows start end_dt mode) = None
   \<and> fst (iter_windows start end_dt mode) \<noteq> []
   \<and> fst (hd (fst (iter_windows start end_dt mode))) = start
   \<and> adjacent mode (fst (iter_windows start end_dt mode))
   \<and> (\<forall>w \<in> set (fst (iter_windows start end_dt mode)).
         dt_le (fst w) end_dt \<and> dt_le (snd w) end_dt \<and> clipped_step mode end_dt w)
   \<and> (\<exists>nxt. next_cursor mode (fst (last (fst (iter_windows start end_dt mode)))) = Inr nxt
         \<and> dt_less end_dt nxt)
   \<and> (mode = MONTHLY \<longrightarrow>
        (\<forall>w \<in> set (fst (iter_windows start end_dt mode)).
           next_cursor mode (fst w)
             = Inr (if month (fst w) = 12 then dt (year (fst w) + 1) 1 1 0 0
                    else dt (year (fst w)) (month (fst w) + 1) 1 0 0)))"
proof -
  have p: "planned start end_dt mode"
    using iter_windows_planned[of start end_dt mode] assms by blast
  have roll: "mode = MONTHLY \<longrightarrow>
        (\<forall>w \<in> set (fst (iter_windows start end_dt mode)).
           next_cursor mode (fst w)
             = Inr (if month (fst w) = 12 then dt (year (fst w) + 1) 1 1 0 0
                    else dt (year (fst w)) (month (fst w) + 1) 1 0 0))"
  proof (intro impI ballI)
    fix w
    assume m: "mode = MONTHLY" and w: "w \<in> set (fst (iter_windows start end_dt mode))"
    from p w have "clipped_step mode end_dt w" by (simp add: planned_def Let_def)
    then obtain nxt where n: "next_cursor mode (fst w) = Inr nxt"
      using clipped_step_next by blast
    with m next_month_value[of "fst w" nxt]
    show "next_cursor mode (fst w)
             = Inr (if month (fst w) = 12 then dt (year (fst w) + 1) 1 1 0 0
                    else dt (year (fst w)) (month (fst w) + 1) 1 0 0)"
      by simp
  qed
  from p assms(3) roll show ?thesis
    by (simp add: planned_def Let_def)
qed

text \<open>
  The theorem at a monthly plan across a year boundary, from 2025-11-15 08:30 to
  2026-01-10 00:00, and at a daily plan across a month boundary.
\<close>

theorem iter_windows_plan_witness:
  "valid_datetime (dt 2025 11 15 8 30) \<and> valid_datetime (dt 2026 1 10 0 0)
   \<and> dt_le (dt 2025 11 15 8 30) (dt 2026 1 10 0 0)
   \<and> can_advance MONTHLY (dt 2026 1 10 0 0)
   \<and> iter_windows (dt 2025 11 15 8 30) (dt 2026 1 10 0 0) MONTHLY
       = ([(dt 2025 11 15 8 30, dt 2025 11 30 23 59),
           (dt 2025 12 1 0 0, dt 2025 12 31 23 59),
           (dt 2026 1 1 0 0, dt 2026 1 10 0 0)], None)
   \<and> adjacent MONTHLY
        [(dt 2025 11 15 8 30, dt 2025 11 30 23 59),
         (dt 2025 12 1 0 0, dt 2025 12 31 23 59),
         (dt 2026 1 1 0 0, dt 2026 1 10 0 0)]
   \<and> next_cursor MONTHLY (dt 2025 12 1 0 0) = Inr (dt 2026 1 1 0 0)
   \<and> can_advance DAILY (dt 2026 2 1 12 0)
   \<and> adjacent DAILY (fst (iter_windows (dt 2026 1 30 0 0) (dt 2026 2 1 12 0) DAILY))"
proof -
  have v: "valid_datetime (dt 2025 11 15 8 30)" "valid_datetime (dt 2026 1 10 0 0)"
    "valid_datetime (dt 2026 1 30 0 0)" "valid_datetime (dt 2026 2 1 12 0)"
    by (simp_all add: valid_datetime_def dt_def days_in_month_def is_leap_def)
  have l: "dt_le (dt 2025 11 15 8 30) (dt 2026 1 10 0 0)"
    "dt_le (dt 2026 1 30 0 0) (dt 2026 2 1 12 0)"
    by (simp_all add: dt_le_def dt_tuple_def dt_def)
  have c: "can_advance MONTHLY (dt 2026 1 10 0 0)" "can_advance DAILY (dt 2026 2 1 12 0)"
    by (simp_all add: can_advance_def dt_def DAILY_def MONTHLY_def)
  have n: "next_cursor MONTHLY (dt 2025 12 1 0 0) = Inr (dt 2026 1 1 0 0)"
    by (simp add: next_cursor_def mk_date_def dt_def days_in_month_def)
  have a: "adjacent MONTHLY
      (fst (iter_windows (dt 2025 11 15 8 30) (dt 2026 1 10 0 0) MONTHLY))"
    using iter_windows_plan[OF v(1) v(2) l(1) _ c(1)] by blast
  have a': "adjacent MONTHLY
        [(dt 2025 11 15 8 30, dt 2025 11 30 23 59),
         (dt 2025 12 1 0 0, dt 2025 12 31 23 59),
         (dt 2026 1 1 0 0, dt 2026 1 10 0 0)]"
    using a by (simp only: sample_monthly_plan fst_conv)
  have d: "adjacent DAILY (fst (iter_windows (dt 2026 1 30 0 0) (dt 2026 2 1 12 0) DAILY))"
    using iter_windows_plan[OF v(3) v(4) l(2) _ c(2)] by blast
  show ?thesis
    using v(1) v(2) l(1) c sample_monthly_plan a' n d by blast
qed

end
